theory Spec2Isabelle
  imports Main "HOL-Library.Word"
begin

section \<open>Parsed commands\<close>

text \<open>
  The dispatcher consumes \<^verbatim>\<open>struct command\<close> from \<^verbatim>\<open>parser.h\<close>. The header is not
  part of the sources; the fields below are exactly the ones \<^verbatim>\<open>dispatcher.c\<close> reads.
  A \<^verbatim>\<open>char *\<close> that may be \<^verbatim>\<open>NULL\<close> is a \<open>string option\<close>, the \<^verbatim>\<open>pipe_to\<close> pointer a
  \<open>command option\<close>.
\<close>

datatype command_output_type =
  COMMAND_OUTPUT_STDOUT
| COMMAND_OUTPUT_FILE_TRUNCATE
| COMMAND_OUTPUT_FILE_APPEND
| COMMAND_OUTPUT_PIPE

datatype command =
  Command (argv: "string list") (input_filename: "string option")
    (output_type: command_output_type) (output_filename: "string option")
    (pipe_to: "command option")

text \<open>The stages of a pipeline in order, following \<^verbatim>\<open>pipe_to\<close> from a given stage.\<close>

function chain :: "command option \<Rightarrow> command list" where
  "chain None = []"
| "chain (Some c) = c # chain (pipe_to c)"
  by pat_completeness auto
termination
proof (relation "measure (size_option size)", goal_cases)
  case 1
  show ?case by simp
next
  case (2 c)
  show ?case by (cases c) simp
qed

section \<open>The operating system, as far as the dispatcher sees it\<close>

type_synonym errno_t = nat

definition ENOENT :: errno_t where "ENOENT = 2"
definition EBADF :: errno_t where "EBADF = 9"
definition ECHILD :: errno_t where "ECHILD = 10"
definition EFAULT :: errno_t where "EFAULT = 14"

definition STDIN_FILENO :: int where "STDIN_FILENO = 0"
definition STDOUT_FILENO :: int where "STDOUT_FILENO = 1"

datatype open_flag = O_RDONLY | O_WRONLY | O_CREAT | O_TRUNC | O_APPEND

text \<open>What a descriptor refers to. Pipes are numbered in the order of their creation.\<close>

datatype file_obj =
  Inherited
| Pipe_read nat
| Pipe_write nat
| File string "open_flag list"

text \<open>A descriptor table: position \<open>i\<close> holds what descriptor \<open>i\<close> refers to.\<close>

type_synonym fd_table = "file_obj option list"

definition fd_lookup :: "fd_table \<Rightarrow> int \<Rightarrow> file_obj option" where
  "fd_lookup t fd = (if 0 \<le> fd \<and> nat fd < length t then t ! nat fd else None)"

fun lowest_free :: "fd_table \<Rightarrow> nat" where
  "lowest_free [] = 0"
| "lowest_free (None # t) = 0"
| "lowest_free (Some x # t) = Suc (lowest_free t)"

definition fd_install :: "fd_table \<Rightarrow> nat \<Rightarrow> file_obj \<Rightarrow> fd_table" where
  "fd_install t i x =
     (if i < length t then t[i := Some x]
      else t @ replicate (i - length t) None @ [Some x])"

text \<open>
  How a child ended, as \<^verbatim>\<open>wait\<close> reports it: \<^verbatim>\<open>WIFEXITED\<close> and \<^verbatim>\<open>WEXITSTATUS\<close> of
  \<^verbatim>\<open>sys/wait.h\<close> read this value. An exit status is the low byte of what the process
  passed to \<^verbatim>\<open>exit\<close>.
\<close>

datatype wstatus = W_EXITED "8 word" | W_SIGNALED nat

fun WIFEXITED :: "wstatus \<Rightarrow> bool" where
  "WIFEXITED (W_EXITED c) = True"
| "WIFEXITED (W_SIGNALED s) = False"

fun WEXITSTATUS :: "wstatus \<Rightarrow> int" where
  "WEXITSTATUS (W_EXITED c) = uint c"
| "WEXITSTATUS (W_SIGNALED s) = 0"

datatype fate = Terminates wstatus | Runs_forever

datatype message = Perror string errno_t | Fprintf string

text \<open>
  A child of the shell: the descriptors it holds when it calls \<^verbatim>\<open>execvp\<close>, the
  argument vector it passes there, the error number when \<^verbatim>\<open>execvp\<close> failed, what the
  launcher code printed in it, and how it ends.
\<close>

record proc =
  proc_pid :: nat
  proc_fds :: fd_table
  proc_errno :: errno_t
  proc_argv :: "string list"
  exec_failed :: "errno_t option"
  proc_stderr :: "message list"
  proc_fate :: fate

text \<open>
  Everything the dispatcher cannot decide: whether a system call succeeds (\<open>None\<close>) or
  fails with an error number, what a program does once it runs, which terminated child
  \<^verbatim>\<open>wait\<close> reports next, and the indeterminate contents of the uninitialised locals
  \<^verbatim>\<open>curr_pipe\<close> and \<^verbatim>\<open>status\<close>. The first argument of the system-call oracles is the
  number of calls to \<^verbatim>\<open>pipe\<close>, \<^verbatim>\<open>open\<close>, \<^verbatim>\<open>fork\<close> and \<^verbatim>\<open>wait\<close> made so far (the
  field \<open>clock\<close> of the state below), so that the same call may succeed at one moment and
  fail at another.
\<close>

record env =
  pipe_result :: "nat \<Rightarrow> errno_t option"
  open_result :: "nat \<Rightarrow> string \<Rightarrow> open_flag list \<Rightarrow> errno_t option"
  fork_result :: "nat \<Rightarrow> errno_t option"
  execvp_result :: "nat \<Rightarrow> string list \<Rightarrow> errno_t + fate"
  wait_choice :: "nat \<Rightarrow> nat list \<Rightarrow> nat"
  uninit_curr_pipe :: "int \<times> int"
  uninit_status :: wstatus

text \<open>The state of the calling process (the shell).\<close>

record world =
  fds :: fd_table
  children :: "proc list"
  reaped :: "(nat \<times> wstatus) list"
  stderr :: "message list"
  errno :: errno_t
  clock :: nat
  last_pid :: nat
  next_pipe :: nat

definition perror :: "string \<Rightarrow> world \<Rightarrow> world" where
  "perror s w = w\<lparr>stderr := stderr w @ [Perror s (errno w)]\<rparr>"

definition sys_close :: "int \<Rightarrow> world \<Rightarrow> world" where
  "sys_close fd w =
     (case fd_lookup (fds w) fd of
        None \<Rightarrow> w\<lparr>errno := EBADF\<rparr>
      | Some x \<Rightarrow> w\<lparr>fds := (fds w)[nat fd := None]\<rparr>)"

definition sys_pipe :: "env \<Rightarrow> world \<Rightarrow> (int \<times> int) option \<times> world" where
  "sys_pipe e w =
     (case pipe_result e (clock w) of
        Some err \<Rightarrow> (None, w\<lparr>errno := err, clock := Suc (clock w)\<rparr>)
      | None \<Rightarrow>
          (let r = lowest_free (fds w);
               t1 = fd_install (fds w) r (Pipe_read (next_pipe w));
               wr = lowest_free t1;
               t2 = fd_install t1 wr (Pipe_write (next_pipe w))
           in (Some (int r, int wr),
               w\<lparr>fds := t2, clock := Suc (clock w), next_pipe := Suc (next_pipe w)\<rparr>)))"

definition sys_open :: "env \<Rightarrow> string option \<Rightarrow> open_flag list \<Rightarrow> world \<Rightarrow> int \<times> world" where
  "sys_open e path flags w =
     (case path of
        None \<Rightarrow> (- 1, w\<lparr>errno := EFAULT, clock := Suc (clock w)\<rparr>)
      | Some p \<Rightarrow>
          (case open_result e (clock w) p flags of
             Some err \<Rightarrow> (- 1, w\<lparr>errno := err, clock := Suc (clock w)\<rparr>)
           | None \<Rightarrow>
               (int (lowest_free (fds w)),
                w\<lparr>fds := fd_install (fds w) (lowest_free (fds w)) (File p flags),
                  clock := Suc (clock w)\<rparr>)))"

text \<open>
  \<^verbatim>\<open>fork\<close>: the branch \<^verbatim>\<open>pid == 0\<close> of the caller is the argument \<open>child\<close>, run on a copy
  of the descriptor table; the value returned is what the parent sees.
\<close>

definition sys_fork :: "env \<Rightarrow> (proc \<Rightarrow> proc) \<Rightarrow> world \<Rightarrow> int \<times> world" where
  "sys_fork e child w =
     (case fork_result e (clock w) of
        Some err \<Rightarrow> (- 1, w\<lparr>errno := err, clock := Suc (clock w)\<rparr>)
      | None \<Rightarrow>
          (int (Suc (last_pid w)),
           w\<lparr>children := children w @
                [child \<lparr>proc_pid = Suc (last_pid w), proc_fds = fds w, proc_errno = errno w,
                        proc_argv = [], exec_failed = None, proc_stderr = [],
                        proc_fate = Runs_forever\<rparr>],
             clock := Suc (clock w), last_pid := Suc (last_pid w)\<rparr>))"

subsection \<open>System calls in a child\<close>

definition child_dup2 :: "int \<Rightarrow> int \<Rightarrow> proc \<Rightarrow> proc" where
  "child_dup2 oldfd newfd p =
     (case fd_lookup (proc_fds p) oldfd of
        None \<Rightarrow> p\<lparr>proc_errno := EBADF\<rparr>
      | Some x \<Rightarrow>
          (if newfd < 0 then p\<lparr>proc_errno := EBADF\<rparr>
           else p\<lparr>proc_fds := fd_install (proc_fds p) (nat newfd) x\<rparr>))"

definition child_close :: "int \<Rightarrow> proc \<Rightarrow> proc" where
  "child_close fd p =
     (case fd_lookup (proc_fds p) fd of
        None \<Rightarrow> p\<lparr>proc_errno := EBADF\<rparr>
      | Some x \<Rightarrow> p\<lparr>proc_fds := (proc_fds p)[nat fd := None]\<rparr>)"

definition child_perror :: "string \<Rightarrow> proc \<Rightarrow> proc" where
  "child_perror s p = p\<lparr>proc_stderr := proc_stderr p @ [Perror s (proc_errno p)]\<rparr>"

definition child_fprintf :: "string \<Rightarrow> proc \<Rightarrow> proc" where
  "child_fprintf s p = p\<lparr>proc_stderr := proc_stderr p @ [Fprintf s]\<rparr>"

definition child_exit :: "int \<Rightarrow> proc \<Rightarrow> proc" where
  "child_exit n p = p\<lparr>proc_fate := Terminates (W_EXITED (word_of_int n))\<rparr>"

text \<open>
  \<^verbatim>\<open>execvp\<close> either replaces the image (the process then ends as the program decides and
  never comes back) or fails, sets \<^verbatim>\<open>errno\<close> and returns to the code after the call,
  which is the argument \<open>after\<close>.
\<close>

definition execvp :: "env \<Rightarrow> string list \<Rightarrow> (proc \<Rightarrow> proc) \<Rightarrow> proc \<Rightarrow> proc" where
  "execvp e args after p =
     (case execvp_result e (proc_pid p) args of
        Inl err \<Rightarrow> after (p\<lparr>proc_errno := err, proc_argv := args, exec_failed := Some err\<rparr>)
      | Inr f \<Rightarrow> p\<lparr>proc_argv := args, proc_fate := f\<rparr>)"

subsection \<open>Waiting\<close>

datatype wait_result = Reaped nat wstatus | No_child | Blocks

definition terminated :: "proc \<Rightarrow> bool" where
  "terminated p = (case proc_fate p of Terminates s \<Rightarrow> True | Runs_forever \<Rightarrow> False)"

definition exit_report :: "proc \<Rightarrow> wstatus" where
  "exit_report p = (case proc_fate p of Terminates s \<Rightarrow> s | Runs_forever \<Rightarrow> W_SIGNALED 0)"

definition without_pid :: "nat \<Rightarrow> proc list \<Rightarrow> proc list" where
  "without_pid n ps = filter (\<lambda>q. proc_pid q \<noteq> n) ps"

text \<open>
  \<^verbatim>\<open>wait(&status)\<close>: with no child left it fails; otherwise it blocks until some child
  has terminated and reports one of the terminated children, any of them.
\<close>

definition sys_wait :: "env \<Rightarrow> world \<Rightarrow> wait_result \<times> world" where
  "sys_wait e w =
     (let ready = filter terminated (children w) in
      if children w = [] then (No_child, w\<lparr>errno := ECHILD\<rparr>)
      else if ready = [] then (Blocks, w)
      else
        (let p = ready ! (wait_choice e (clock w) (map proc_pid ready) mod length ready)
         in (Reaped (proc_pid p) (exit_report p),
             w\<lparr>children := without_pid (proc_pid p) (children w),
               reaped := reaped w @ [(proc_pid p, exit_report p)],
               clock := Suc (clock w)\<rparr>)))"

text \<open>\<^verbatim>\<open>waitpid(pid, &status, 0)\<close>: the same for one given child.\<close>

definition sys_waitpid :: "int \<Rightarrow> world \<Rightarrow> wait_result \<times> world" where
  "sys_waitpid n w =
     (case filter (\<lambda>q. int (proc_pid q) = n) (children w) of
        [] \<Rightarrow> (No_child, w\<lparr>errno := ECHILD\<rparr>)
      | p # ps \<Rightarrow>
          (if terminated p
           then (Reaped (proc_pid p) (exit_report p),
                 w\<lparr>children := without_pid (proc_pid p) (children w),
                   reaped := reaped w @ [(proc_pid p, exit_report p)],
                   clock := Suc (clock w)\<rparr>)
           else (Blocks, w)))"


datatype outcome = Ret int | Hang | Segfault

text \<open>
  \<^verbatim>\<open>while(wait(&status) > 0);\<close> Process ids are positive, so the loop runs until
  \<^verbatim>\<open>wait\<close> fails. The result is the last status stored, or \<open>None\<close> when a child
  never terminates and the call blocks for ever.
\<close>

function wait_loop :: "env \<Rightarrow> wstatus \<Rightarrow> world \<Rightarrow> wstatus option \<times> world" where
  "wait_loop e status w =
     (case sys_wait e w of
        (Reaped n s, w') \<Rightarrow> wait_loop e s w'
      | (No_child, w') \<Rightarrow> (Some status, w')
      | (Blocks, w') \<Rightarrow> (None, w'))"
  by pat_completeness auto
termination
proof (relation "measure (\<lambda>(e, status, w). length (children w))", goal_cases)
  case 1
  show ?case by simp
next
  case (2 e status w wr w' n s)
  define ready where "ready = filter terminated (children w)"
  define q where "q = ready ! (wait_choice e (clock w) (map proc_pid ready) mod length ready)"
  from 2 have sw: "fst (sys_wait e w) = Reaped n s" "snd (sys_wait e w) = w'"
    by (metis fst_conv, metis snd_conv)
  then have ne: "ready \<noteq> []"
    by (auto simp: sys_wait_def ready_def Let_def split: if_splits)
  from sw have w': "children w' = without_pid (proc_pid q) (children w)"
    by (auto simp: sys_wait_def ready_def q_def Let_def split: if_splits)
  from ne have "q \<in> set ready"
    by (simp add: q_def)
  then have "q \<in> set (children w)"
    by (simp add: ready_def)
  then have "length (without_pid (proc_pid q) (children w)) < length (children w)"
    unfolding without_pid_def by (intro length_filter_less [of q]) auto
  with w' show ?case
    by simp
qed

section \<open>The revision with helper functions (source lines 208 to 430)\<close>

text \<open>
  \<^verbatim>\<open>setup_io\<close> writes through its pointer arguments; the model returns the return code
  together with the new values of \<^verbatim>\<open>*input_fd\<close>, \<^verbatim>\<open>*output_fd\<close> and \<^verbatim>\<open>curr_pipe\<close>.
  The creation mode \<^verbatim>\<open>0644\<close> is not modelled.
\<close>

definition setup_io ::
  "env \<Rightarrow> command \<Rightarrow> int \<Rightarrow> int \<Rightarrow> int \<times> int \<Rightarrow> world
     \<Rightarrow> int \<times> int \<times> int \<times> (int \<times> int) \<times> world" where
  "setup_io e current_cmd input_fd output_fd curr_pipe w =
     (case (if output_type current_cmd = COMMAND_OUTPUT_PIPE then
              (case sys_pipe e w of
                 (None, w1) \<Rightarrow> (True, output_fd, curr_pipe, perror ''pipe failed'' w1)
               | (Some cp, w1) \<Rightarrow> (False, snd cp, cp, w1))
            else if output_type current_cmd = COMMAND_OUTPUT_FILE_TRUNCATE then
              (case sys_open e (output_filename current_cmd) [O_WRONLY, O_CREAT, O_TRUNC] w of
                 (fd, w1) \<Rightarrow> (False, fd, curr_pipe, w1))
            else if output_type current_cmd = COMMAND_OUTPUT_FILE_APPEND then
              (case sys_open e (output_filename current_cmd) [O_WRONLY, O_CREAT, O_APPEND] w of
                 (fd, w1) \<Rightarrow> (False, fd, curr_pipe, w1))
            else (False, output_fd, curr_pipe, w))
      of (pipe_failed, output_fd1, curr_pipe1, w1) \<Rightarrow>
        if pipe_failed then (- 1, input_fd, output_fd1, curr_pipe1, w1)
        else
          (case (case input_filename current_cmd of
                   None \<Rightarrow> (input_fd, w1)
                 | Some f \<Rightarrow> sys_open e (Some f) [O_RDONLY] w1)
           of (input_fd1, w2) \<Rightarrow>
             if input_filename current_cmd \<noteq> None \<and> input_fd1 = - 1 then
               (- 1, input_fd1, output_fd1, curr_pipe1,
                perror ''Failed to open input file for reading'' w2)
             else if output_fd1 = - 1 \<and>
                     (output_type current_cmd = COMMAND_OUTPUT_FILE_TRUNCATE \<or>
                      output_type current_cmd = COMMAND_OUTPUT_FILE_APPEND) then
               (- 1, input_fd1, output_fd1, curr_pipe1, perror ''Failed to open output file'' w2)
             else (0, input_fd1, output_fd1, curr_pipe1, w2)))"

text \<open>The child's side of \<^verbatim>\<open>fork\<close>. It never returns: it becomes the program or exits.\<close>

definition execute_child_process ::
  "env \<Rightarrow> command \<Rightarrow> int \<Rightarrow> int \<Rightarrow> int \<times> int \<Rightarrow> proc \<Rightarrow> proc" where
  "execute_child_process e current_cmd input_fd output_fd curr_pipe p =
     (let p1 = (if input_fd \<noteq> STDIN_FILENO
                then child_close input_fd (child_dup2 input_fd STDIN_FILENO p) else p);
          p2 = (if output_fd \<noteq> STDOUT_FILENO
                then child_close output_fd (child_dup2 output_fd STDOUT_FILENO p1) else p1);
          p3 = (if output_type current_cmd = COMMAND_OUTPUT_PIPE
                then child_close (snd curr_pipe) p2 else p2)
      in execvp e (argv current_cmd)
           (\<lambda>q. child_exit (- 1) (child_perror ''execvp failed'' q)) p3)"

definition handle_parent_process ::
  "command \<Rightarrow> int \<Rightarrow> int \<times> int \<Rightarrow> int \<times> int \<Rightarrow> world \<Rightarrow> int \<times> (int \<times> int) \<times> world" where
  "handle_parent_process current_cmd input_fd prev_pipe curr_pipe w =
     (let w1 = (if output_type current_cmd = COMMAND_OUTPUT_PIPE
                then sys_close (snd curr_pipe) w else w);
          w2 = (if fst prev_pipe \<noteq> - 1 then sys_close (fst prev_pipe) w1 else w1)
      in ((if output_type current_cmd = COMMAND_OUTPUT_PIPE then fst curr_pipe else STDIN_FILENO),
          curr_pipe, w2))"

text \<open>
  The \<^verbatim>\<open>while (current_cmd)\<close> loop of \<^verbatim>\<open>dispatch_external_command\<close>. \<open>Some rv\<close> is a
  \<^verbatim>\<open>return rv\<close> from inside the loop, \<open>None\<close> is leaving the loop at its end.
\<close>

function stage_loop_317 ::
  "env \<Rightarrow> command option \<Rightarrow> int \<Rightarrow> int \<Rightarrow> int \<times> int \<Rightarrow> int \<times> int \<Rightarrow> world
     \<Rightarrow> int option \<times> world" where
  "stage_loop_317 e None input_fd output_fd prev_pipe curr_pipe w = (None, w)"
| "stage_loop_317 e (Some current_cmd) input_fd output_fd prev_pipe curr_pipe w =
     (case setup_io e current_cmd input_fd output_fd curr_pipe w of
        (rc, input_fd1, output_fd1, curr_pipe1, w1) \<Rightarrow>
          if rc = - 1 then (Some (- 1), w1)
          else
            (case sys_fork e
                    (execute_child_process e current_cmd input_fd1 output_fd1 curr_pipe1) w1 of
               (pid, w2) \<Rightarrow>
                 if pid > 0 then
                   (case handle_parent_process current_cmd input_fd1 prev_pipe curr_pipe1 w2 of
                      (input_fd2, prev_pipe2, w3) \<Rightarrow>
                        stage_loop_317 e (pipe_to current_cmd) input_fd2 output_fd1
                          prev_pipe2 curr_pipe1 w3)
                 else (Some (- 1), perror ''fork failed'' w2)))"
  by pat_completeness auto
termination
proof (relation "measure (\<lambda>(e, c, rest). size_option size c)", goal_cases)
  case 1
  show ?case by simp
next
  case (2 e current_cmd)
  show ?case by (cases current_cmd) simp
qed

definition dispatch_external_command_317 :: "env \<Rightarrow> command \<Rightarrow> world \<Rightarrow> outcome \<times> world" where
  "dispatch_external_command_317 e pipeline w =
     (case stage_loop_317 e (Some pipeline) STDIN_FILENO STDOUT_FILENO (- 1, - 1)
             (uninit_curr_pipe e) w of
        (Some rv, w1) \<Rightarrow> (Ret rv, w1)
      | (None, w1) \<Rightarrow>
          (case wait_loop e (uninit_status e) w1 of
             (None, w2) \<Rightarrow> (Hang, w2)
           | (Some status, w2) \<Rightarrow>
               (Ret (if WIFEXITED status then WEXITSTATUS status else - 1), w2)))"


section \<open>The first pipeline revision (source lines 1 to 206)\<close>

text \<open>
  Everything is inline in \<^verbatim>\<open>dispatch_external_command\<close>. The child's branch of \<^verbatim>\<open>fork\<close>
  (lines 93 to 121) and the parent's (lines 122 to 144) are the two definitions below;
  \<open>pipeline\<close> is the head of the chain, which line 82 reads.
\<close>

definition child_branch_32 ::
  "env \<Rightarrow> command \<Rightarrow> int \<Rightarrow> int \<Rightarrow> int \<times> int \<Rightarrow> proc \<Rightarrow> proc" where
  "child_branch_32 e current_cmd input_fd output_fd curr_pipe p =
     (let p1 = (if input_fd \<noteq> STDIN_FILENO
                then child_close input_fd (child_dup2 input_fd STDIN_FILENO p) else p);
          p2 = (if output_fd \<noteq> STDOUT_FILENO
                then child_close output_fd (child_dup2 output_fd STDOUT_FILENO p1) else p1);
          p3 = (if output_type current_cmd = COMMAND_OUTPUT_PIPE
                then child_close (snd curr_pipe) (child_close (fst curr_pipe) p2) else p2)
      in execvp e (argv current_cmd)
           (\<lambda>q. child_exit (- 1)
                  (if proc_errno q = ENOENT
                   then child_fprintf (''error: cannot find command'' @ [CHR 0x0A]) q
                   else child_perror ''Failed to execute the external command'' q)) p3)"

definition parent_branch_32 ::
  "command \<Rightarrow> int \<times> int \<Rightarrow> int \<times> int \<Rightarrow> world \<Rightarrow> int \<times> (int \<times> int) \<times> world" where
  "parent_branch_32 current_cmd prev_pipe curr_pipe w =
     (let w1 = (if fst prev_pipe \<noteq> - 1
                then sys_close (snd prev_pipe) (sys_close (fst prev_pipe) w) else w);
          w2 = (if output_type current_cmd = COMMAND_OUTPUT_PIPE
                then sys_close (snd curr_pipe) w1 else w1)
      in ((if output_type current_cmd = COMMAND_OUTPUT_PIPE then fst curr_pipe else STDIN_FILENO),
          curr_pipe, w2))"

text \<open>Lines 73 to 89: the output side of the stage, before \<^verbatim>\<open>fork\<close>.\<close>

definition resolve_output_32 ::
  "env \<Rightarrow> command \<Rightarrow> command \<Rightarrow> int \<Rightarrow> int \<times> int \<Rightarrow> world
     \<Rightarrow> bool \<times> int \<times> (int \<times> int) \<times> world" where
  "resolve_output_32 e pipeline current_cmd output_fd curr_pipe w =
     (case (if output_type current_cmd = COMMAND_OUTPUT_PIPE then
              (case sys_pipe e w of
                 (None, w1) \<Rightarrow> (True, output_fd, curr_pipe, perror ''pipe failed'' w1)
               | (Some cp, w1) \<Rightarrow> (False, snd cp, cp, w1))
            else if output_type current_cmd = COMMAND_OUTPUT_FILE_TRUNCATE then
              (case sys_open e (output_filename current_cmd) [O_WRONLY, O_CREAT, O_TRUNC] w of
                 (fd, w1) \<Rightarrow> (False, fd, curr_pipe, w1))
            else if output_type current_cmd = COMMAND_OUTPUT_FILE_APPEND then
              (case sys_open e (output_filename pipeline) [O_WRONLY, O_CREAT, O_APPEND] w of
                 (fd, w1) \<Rightarrow> (False, fd, curr_pipe, w1))
            else (False, output_fd, curr_pipe, w))
      of (pipe_failed, output_fd1, curr_pipe1, w1) \<Rightarrow>
        if pipe_failed then (True, output_fd1, curr_pipe1, w1)
        else if (output_type current_cmd = COMMAND_OUTPUT_FILE_TRUNCATE \<or>
                 output_type current_cmd = COMMAND_OUTPUT_FILE_APPEND) \<and> output_fd1 = - 1
        then (True, output_fd1, curr_pipe1, perror ''Failed to open output file'' w1)
        else (False, output_fd1, curr_pipe1, w1))"

function stage_loop_32 ::
  "env \<Rightarrow> command \<Rightarrow> command option \<Rightarrow> int \<Rightarrow> int \<Rightarrow> int \<times> int \<Rightarrow> int \<times> int \<Rightarrow> world
     \<Rightarrow> int option \<times> world" where
  "stage_loop_32 e pipeline None input_fd output_fd prev_pipe curr_pipe w = (None, w)"
| "stage_loop_32 e pipeline (Some current_cmd) input_fd output_fd prev_pipe curr_pipe w =
     (case resolve_output_32 e pipeline current_cmd output_fd curr_pipe w of
        (failed, output_fd1, curr_pipe1, w1) \<Rightarrow>
          if failed then (Some (- 1), w1)
          else
            (case sys_fork e (child_branch_32 e current_cmd input_fd output_fd1 curr_pipe1) w1 of
               (pid, w2) \<Rightarrow>
                 if pid > 0 then
                   (case parent_branch_32 current_cmd prev_pipe curr_pipe1 w2 of
                      (input_fd2, prev_pipe2, w3) \<Rightarrow>
                        stage_loop_32 e pipeline (pipe_to current_cmd) input_fd2 output_fd1
                          prev_pipe2 curr_pipe1 w3)
                 else (Some (- 1), perror ''fork failed'' w2)))"
  by pat_completeness auto
termination
proof (relation "measure (\<lambda>(e, p, c, rest). size_option size c)", goal_cases)
  case 1
  show ?case by simp
next
  case (2 e pipeline current_cmd)
  show ?case by (cases current_cmd) simp
qed

definition dispatch_external_command_32 :: "env \<Rightarrow> command \<Rightarrow> world \<Rightarrow> outcome \<times> world" where
  "dispatch_external_command_32 e pipeline w =
     (case stage_loop_32 e pipeline (Some pipeline) STDIN_FILENO STDOUT_FILENO (- 1, - 1)
             (uninit_curr_pipe e) w of
        (Some rv, w1) \<Rightarrow> (Ret rv, w1)
      | (None, w1) \<Rightarrow>
          (case wait_loop e (uninit_status e) w1 of
             (None, w2) \<Rightarrow> (Hang, w2)
           | (Some status, w2) \<Rightarrow>
               (Ret (if WIFEXITED status then WEXITSTATUS status else - 1), w2)))"

section \<open>The single-command revision (source lines 432 to 611)\<close>

definition child_branch_463 :: "env \<Rightarrow> command \<Rightarrow> proc \<Rightarrow> proc" where
  "child_branch_463 e pipeline p =
     execvp e (argv pipeline)
       (\<lambda>q. child_exit (- 1)
              (if proc_errno q = ENOENT
               then child_fprintf (''error: cannot find command'' @ [CHR 0x0A]) q
               else child_perror ''Failed to execute the external command'' q)) p"

definition dispatch_external_command_463 :: "env \<Rightarrow> command \<Rightarrow> world \<Rightarrow> outcome \<times> world" where
  "dispatch_external_command_463 e pipeline w =
     (case (case input_filename pipeline of
              None \<Rightarrow> (STDIN_FILENO, w)
            | Some f \<Rightarrow> sys_open e (Some f) [O_RDONLY] w)
      of (input_fd, w1) \<Rightarrow>
        if input_filename pipeline \<noteq> None \<and> input_fd = - 1
        then (Ret (- 1), perror ''Failed to open input file'' w1)
        else
          (case (if output_type pipeline = COMMAND_OUTPUT_FILE_TRUNCATE then
                   sys_open e (output_filename pipeline) [O_WRONLY, O_CREAT, O_TRUNC] w1
                 else if output_type pipeline = COMMAND_OUTPUT_FILE_APPEND then
                   sys_open e (output_filename pipeline) [O_WRONLY, O_CREAT, O_APPEND] w1
                 else (STDOUT_FILENO, w1))
           of (output_fd, w2) \<Rightarrow>
             if output_type pipeline = COMMAND_OUTPUT_FILE_TRUNCATE \<and> output_fd = - 1
             then (Ret (- 1),
                   sys_close input_fd (perror ''Failed to open output file for truncation'' w2))
             else if output_type pipeline = COMMAND_OUTPUT_FILE_APPEND \<and> output_fd = - 1
             then (Ret (- 1),
                   sys_close input_fd (perror ''Failed to open output file for appending'' w2))
             else
               (case sys_fork e (child_branch_463 e pipeline) w2 of
                  (pid, w3) \<Rightarrow>
                    if pid = - 1 then (Ret (- 1), perror ''Failed to fork child process'' w3)
                    else
                      (case sys_waitpid pid w3 of
                         (Blocks, w4) \<Rightarrow> (Hang, w4)
                       | (No_child, w4) \<Rightarrow>
                           (Ret (if WIFEXITED (uninit_status e)
                                 then WEXITSTATUS (uninit_status e) else - 1), w4)
                       | (Reaped n status, w4) \<Rightarrow>
                           (Ret (if WIFEXITED status then WEXITSTATUS status else - 1), w4)))))"

section \<open>Dispatching a parsed command and an input line\<close>

text \<open>
  \<^verbatim>\<open>dispatch_parsed_command\<close> and \<^verbatim>\<open>shell_command_dispatcher\<close> are the same text in the
  three revisions; the revision's \<^verbatim>\<open>dispatch_external_command\<close> is the argument \<open>ext\<close>.
  The table \<^verbatim>\<open>builtin_commands\<close> (\<^verbatim>\<open>shell_builtins.h\<close>), \<^verbatim>\<open>parse_input\<close> and
  \<^verbatim>\<open>parse_error_str\<close> (\<^verbatim>\<open>parser.h\<close>) are not part of the sources and are arguments
  too. A handler receives \<^verbatim>\<open>argv\<close>, the previous status and the exit flag, and gives
  back its status and the flag as it left it. \<^verbatim>\<open>argv[0]\<close> of an empty argument vector
  is \<^verbatim>\<open>NULL\<close>, which \<^verbatim>\<open>strcmp\<close> dereferences.
\<close>

type_synonym handler = "string list \<Rightarrow> int \<Rightarrow> bool \<Rightarrow> int \<times> bool"

fun dispatch_parsed_command ::
  "(command \<Rightarrow> world \<Rightarrow> outcome \<times> world) \<Rightarrow> (string \<times> handler) list
     \<Rightarrow> command \<Rightarrow> int \<Rightarrow> bool \<Rightarrow> world \<Rightarrow> outcome \<times> bool \<times> world" where
  "dispatch_parsed_command ext [] cmd last_rv shell_should_exit w =
     (case ext cmd w of (rv, w1) \<Rightarrow> (rv, shell_should_exit, w1))"
| "dispatch_parsed_command ext ((name, h) # builtin_commands) cmd last_rv shell_should_exit w =
     (case argv cmd of
        [] \<Rightarrow> (Segfault, shell_should_exit, w)
      | a0 # args \<Rightarrow>
          if name = a0 then
            (case h (argv cmd) last_rv shell_should_exit of
               (rv, flag) \<Rightarrow> (Ret rv, flag, w))
          else dispatch_parsed_command ext builtin_commands cmd last_rv shell_should_exit w)"

definition shell_command_dispatcher ::
  "(string \<Rightarrow> nat \<times> command option) \<Rightarrow> (nat \<Rightarrow> string)
     \<Rightarrow> (command \<Rightarrow> world \<Rightarrow> outcome \<times> world) \<Rightarrow> (string \<times> handler) list
     \<Rightarrow> string \<Rightarrow> int \<Rightarrow> bool \<Rightarrow> world \<Rightarrow> outcome \<times> bool \<times> world" where
  "shell_command_dispatcher parse_input parse_error_str ext builtin_commands
       input last_rv shell_should_exit w =
     (case parse_input input of
        (parse_error, parse_result) \<Rightarrow>
          if parse_error \<noteq> 0 then
            (Ret (- 1), shell_should_exit,
             w\<lparr>stderr := stderr w @
                  [Fprintf (''Input parse error: '' @ parse_error_str parse_error @ [CHR 0x0A])]\<rparr>)
          else
            (case parse_result of
               None \<Rightarrow> (Ret last_rv, shell_should_exit, w)
             | Some cmd \<Rightarrow>
                 dispatch_parsed_command ext builtin_commands cmd last_rv shell_should_exit w))"

section \<open>How children end\<close>

text \<open>Whether a process was ended by a signal rather than by exiting.\<close>

definition ended_by_signal :: "fate \<Rightarrow> bool" where
  "ended_by_signal f =
     (case f of
        Terminates (W_EXITED c) \<Rightarrow> False
      | Terminates (W_SIGNALED s) \<Rightarrow> True
      | Runs_forever \<Rightarrow> False)"

text \<open>How a child ends: as the program decides, or with status 255 when \<^verbatim>\<open>execvp\<close> fails.\<close>

definition fate_of :: "env \<Rightarrow> nat \<Rightarrow> string list \<Rightarrow> fate" where
  "fate_of e n args =
     (case execvp_result e n args of
        Inl err \<Rightarrow> Terminates (W_EXITED 255)
      | Inr f \<Rightarrow> f)"

section \<open>Descriptors that refer to pipes\<close>

text \<open>
  The positions of a descriptor table that refer to a pipe numbered \<open>n\<close> or later, that
  is, created since the pipe counter stood at \<open>n\<close>; and the pipelines in which exactly
  the stages with pipe output have a successor.
\<close>

definition refers_to_new_pipe :: "nat \<Rightarrow> file_obj option \<Rightarrow> bool" where
  "refers_to_new_pipe n x =
     (case x of
        None \<Rightarrow> False
      | Some Inherited \<Rightarrow> False
      | Some (Pipe_read k) \<Rightarrow> n \<le> k
      | Some (Pipe_write k) \<Rightarrow> n \<le> k
      | Some (File path flags) \<Rightarrow> False)"

definition pipe_fds :: "nat \<Rightarrow> fd_table \<Rightarrow> nat list" where
  "pipe_fds n t = filter (\<lambda>i. refers_to_new_pipe n (t ! i)) [0..<length t]"

definition well_formed :: "command \<Rightarrow> bool" where
  "well_formed c =
     list_all (\<lambda>s. (output_type s = COMMAND_OUTPUT_PIPE) = (pipe_to s \<noteq> None))
       (chain (Some c))"

section \<open>Concrete inputs\<close>

text \<open>
  The shell before any command: the three standard descriptors, no children.
\<close>

definition shell_world :: world where
  "shell_world =
     \<lparr>fds = [Some Inherited, Some Inherited, Some Inherited], children = [], reaped = [],
      stderr = [], errno = 0, clock = 0, last_pid = 100, next_pipe = 0\<rparr>"

definition EAGAIN :: errno_t where "EAGAIN = 11"
definition EACCES :: errno_t where "EACCES = 13"

text \<open>
  A system where every call succeeds except opening \<^verbatim>\<open>nonexistent_file\<close> or a path
  under \<^verbatim>\<open>/nodir\<close>. The program \<^verbatim>\<open>sh -c 'sleep 1; exit 3'\<close> exits with 3,
  \<^verbatim>\<open>false\<close> with 1, \<^verbatim>\<open>victim\<close> is killed by signal 9, \<^verbatim>\<open>nosuch\<close> does not exist,
  \<^verbatim>\<open>noperm\<close> may not be executed, every other program exits with 0. Of the children
  that have terminated, \<^verbatim>\<open>wait\<close> reports the youngest first.
\<close>

definition programs :: "nat \<Rightarrow> string list \<Rightarrow> errno_t + fate" where
  "programs n args =
     (if args = [''sh'', ''-c'', ''sleep 1; exit 3''] then Inr (Terminates (W_EXITED 3))
      else if args = [''false''] then Inr (Terminates (W_EXITED 1))
      else if args = [''victim''] then Inr (Terminates (W_SIGNALED 9))
      else if args = [''nosuch''] then Inl ENOENT
      else if args = [''noperm''] then Inl EACCES
      else Inr (Terminates (W_EXITED 0)))"

definition files :: "nat \<Rightarrow> string \<Rightarrow> open_flag list \<Rightarrow> errno_t option" where
  "files n path flags =
     (if path = ''nonexistent_file'' \<or> take 7 path = ''/nodir/'' then Some ENOENT else None)"

definition env_youngest_first :: env where
  "env_youngest_first =
     \<lparr>pipe_result = (\<lambda>n. None), open_result = files, fork_result = (\<lambda>n. None),
      execvp_result = programs, wait_choice = (\<lambda>n pids. length pids - 1),
      uninit_curr_pipe = (0, 0), uninit_status = W_EXITED 0\<rparr>"

text \<open>
  The same system, where \<^verbatim>\<open>fork\<close> fails once two calls have been made: in a two-stage
  pipeline the call for the first stage (after \<^verbatim>\<open>pipe\<close>) succeeds, the call for the
  second stage fails.
\<close>

definition env_fork_fails :: env where
  "env_fork_fails =
     env_youngest_first\<lparr>fork_result := (\<lambda>n. if n < 2 then None else Some EAGAIN)\<rparr>"

definition simple_command :: "string list \<Rightarrow> command" where
  "simple_command args = Command args None COMMAND_OUTPUT_STDOUT None None"

definition piped_into :: "string list \<Rightarrow> command \<Rightarrow> command" where
  "piped_into args next_stage = Command args None COMMAND_OUTPUT_PIPE None (Some next_stage)"

text \<open>\<^verbatim>\<open>sh -c 'sleep 1; exit 3' | true\<close>\<close>

definition slow_then_true :: command where
  "slow_then_true =
     piped_into [''sh'', ''-c'', ''sleep 1; exit 3''] (simple_command [''true''])"

text \<open>\<^verbatim>\<open>sh -c 'sleep 1; exit 3' | cat < nonexistent_file\<close>\<close>

definition slow_then_missing_input :: command where
  "slow_then_missing_input =
     piped_into [''sh'', ''-c'', ''sleep 1; exit 3'']
       (Command [''cat''] (Some ''nonexistent_file'') COMMAND_OUTPUT_STDOUT None None)"

text \<open>\<^verbatim>\<open>sh -c 'sleep 1; exit 3' | cat > /nodir/out\<close>\<close>

definition slow_then_bad_output :: command where
  "slow_then_bad_output =
     piped_into [''sh'', ''-c'', ''sleep 1; exit 3'']
       (Command [''cat''] None COMMAND_OUTPUT_FILE_TRUNCATE (Some ''/nodir/out'') None)"

text \<open>\<^verbatim>\<open>ls | sort >> out\<close>\<close>

definition ls_sort_append :: command where
  "ls_sort_append =
     piped_into [''ls'']
       (Command [''sort''] None COMMAND_OUTPUT_FILE_APPEND (Some ''out'') None)"

text \<open>\<^verbatim>\<open>cat < nonexistent_file\<close>\<close>

definition cat_missing_input :: command where
  "cat_missing_input =
     Command [''cat''] (Some ''nonexistent_file'') COMMAND_OUTPUT_STDOUT None None"

text \<open>
  The system of \<open>env_youngest_first\<close>, except that \<^verbatim>\<open>wait\<close> reports process 102 only when no
  other child has terminated; and the pipeline \<^verbatim>\<open>true | victim\<close>.
\<close>

definition env_victim_last :: env where
  "env_victim_last =
     env_youngest_first\<lparr>wait_choice := (\<lambda>n pids. length (takeWhile (\<lambda>x. x = 102) pids))\<rparr>"

definition true_then_victim :: command where
  "true_then_victim = piped_into [''true''] (simple_command [''victim''])"

text \<open>
  A parser for the examples: the empty line is blank, the line \<^verbatim>\<open>|\<close> is a parse error,
  any other line is one command without arguments.
\<close>

definition example_parse_input :: "string \<Rightarrow> nat \<times> command option" where
  "example_parse_input input =
     (if input = [] then (0, None)
      else if input = ''|'' then (1, None)
      else (0, Some (simple_command [input])))"

definition example_parse_error_str :: "nat \<Rightarrow> string" where
  "example_parse_error_str n = ''syntax error''"

text \<open>Two builtins: \<^verbatim>\<open>exit\<close> sets the flag, \<^verbatim>\<open>cd\<close> leaves it alone.\<close>

definition example_builtins :: "(string \<times> handler) list" where
  "example_builtins =
     [(''cd'', \<lambda>args last_rv flag. (0, flag)),
      (''exit'', \<lambda>args last_rv flag. (last_rv, True))]"

section \<open>What the system calls leave alone\<close>

lemma perror_frame [simp]:
  "children (perror s w) = children w"
  "reaped (perror s w) = reaped w"
  "fds (perror s w) = fds w"
  "stderr (perror s w) = stderr w @ [Perror s (errno w)]"
  by (simp_all add: perror_def)

lemma sys_close_frame [simp]:
  "children (sys_close fd w) = children w"
  "reaped (sys_close fd w) = reaped w"
  "stderr (sys_close fd w) = stderr w"
  by (simp_all add: sys_close_def split: option.splits)

lemma sys_pipe_frame:
  assumes "sys_pipe e w = (r, w1)"
  shows "children w1 = children w" and "reaped w1 = reaped w" and "stderr w1 = stderr w"
  using assms by (auto simp: sys_pipe_def Let_def split: option.splits)

lemma sys_open_frame:
  assumes "sys_open e path flags w = (fd, w1)"
  shows "children w1 = children w" and "reaped w1 = reaped w" and "stderr w1 = stderr w"
  using assms by (auto simp: sys_open_def split: option.splits)

lemma sys_open_fails:
  assumes "\<forall>n. open_result e n f flags \<noteq> None"
  shows "fst (sys_open e (Some f) flags w) = - 1"
  using assms by (auto simp: sys_open_def split: option.splits)

lemma sys_fork_frame:
  assumes "sys_fork e ch w = (pid, w1)"
  shows "reaped w1 = reaped w" and "stderr w1 = stderr w"
  using assms by (auto simp: sys_fork_def split: option.splits)

lemma sys_fork_children:
  assumes "sys_fork e ch w = (pid, w1)"
  shows "(pid = - 1 \<and> children w1 = children w) \<or>
         (0 < pid \<and> (\<exists>p. children w1 = children w @ [ch p]))"
  using assms by (auto simp: sys_fork_def split: option.splits)


lemma setup_io_frame:
  assumes "setup_io e c ifd ofd cp w = (rc, i1, o1, cp1, w1)"
  shows "children w1 = children w \<and> reaped w1 = reaped w \<and> (rc = - 1 \<or> rc = 0) \<and>
         (if rc = 0 then stderr w1 = stderr w else \<exists>s err. stderr w1 = stderr w @ [Perror s err])"
proof -
  obtain pr wp where P: "sys_pipe e w = (pr, wp)" by fastforce
  obtain ft wt where T: "sys_open e (output_filename c) [O_WRONLY, O_CREAT, O_TRUNC] w = (ft, wt)"
    by fastforce
  obtain fa wa where A: "sys_open e (output_filename c) [O_WRONLY, O_CREAT, O_APPEND] w = (fa, wa)"
    by fastforce
  note fp = sys_pipe_frame [OF P] and ftr = sys_open_frame [OF T] and fap = sys_open_frame [OF A]
  show ?thesis
  proof (cases "input_filename c")
    case None
    show ?thesis
    proof (cases "output_type c")
      case COMMAND_OUTPUT_STDOUT
      with None assms show ?thesis by (simp add: setup_io_def split: if_splits)
    next
      case COMMAND_OUTPUT_FILE_TRUNCATE
      with None assms T ftr show ?thesis by (auto simp add: setup_io_def split: if_splits)
    next
      case COMMAND_OUTPUT_FILE_APPEND
      with None assms A fap show ?thesis by (auto simp add: setup_io_def split: if_splits)
    next
      case COMMAND_OUTPUT_PIPE
      with None assms P fp show ?thesis
        by (cases pr) (auto simp add: setup_io_def split: if_splits)
    qed
  next
    case (Some f)
    obtain f0 w0 where I0: "sys_open e (Some f) [O_RDONLY] w = (f0, w0)" by fastforce
    obtain f1 w1' where I1: "sys_open e (Some f) [O_RDONLY] wt = (f1, w1')" by fastforce
    obtain f2 w2 where I2: "sys_open e (Some f) [O_RDONLY] wa = (f2, w2)" by fastforce
    obtain f3 w3 where I3: "sys_open e (Some f) [O_RDONLY] wp = (f3, w3)" by fastforce
    note g0 = sys_open_frame [OF I0] and g1 = sys_open_frame [OF I1]
      and g2 = sys_open_frame [OF I2] and g3 = sys_open_frame [OF I3]
    show ?thesis
    proof (cases "output_type c")
      case COMMAND_OUTPUT_STDOUT
      with Some assms I0 g0 show ?thesis by (auto simp add: setup_io_def split: if_splits)
    next
      case COMMAND_OUTPUT_FILE_TRUNCATE
      with Some assms T ftr I1 g1 show ?thesis by (auto simp add: setup_io_def split: if_splits)
    next
      case COMMAND_OUTPUT_FILE_APPEND
      with Some assms A fap I2 g2 show ?thesis by (auto simp add: setup_io_def split: if_splits)
    next
      case COMMAND_OUTPUT_PIPE
      with Some assms P fp I3 g3 show ?thesis
        by (cases pr) (auto simp add: setup_io_def split: if_splits)
    qed
  qed
qed


lemma setup_io_input_fails:
  assumes "input_filename c = Some f" and "\<forall>n. open_result e n f [O_RDONLY] \<noteq> None"
  shows "fst (setup_io e c ifd ofd cp w) = - 1"
proof -
  have *: "\<And>w0. fst (sys_open e (Some f) [O_RDONLY] w0) = - 1"
    using assms(2) by (rule sys_open_fails)
  have **: "\<And>w0 fd w1. sys_open e (Some f) [O_RDONLY] w0 = (fd, w1) \<Longrightarrow> fd = - 1"
    using * by (metis fst_conv)
  show ?thesis
    using assms(1)
    by (auto simp add: setup_io_def split: prod.splits if_splits dest: **)
qed

lemma execvp_argv: "proc_argv (execvp e args (\<lambda>q. child_exit n (g q)) p) = args"
  if "\<And>q. proc_argv (g q) = proc_argv q"
  using that by (simp add: execvp_def child_exit_def split: sum.splits)

lemma child_perror_argv [simp]: "proc_argv (child_perror s q) = proc_argv q"
  by (simp add: child_perror_def)

lemma child_fprintf_argv [simp]: "proc_argv (child_fprintf s q) = proc_argv q"
  by (simp add: child_fprintf_def)

lemma execute_child_process_argv:
  "proc_argv (execute_child_process e c ifd ofd cp p) = argv c"
  by (simp add: execute_child_process_def Let_def execvp_argv)

lemma handle_parent_process_frame:
  assumes "handle_parent_process c ifd pp cp w = (i2, pp2, w2)"
  shows "children w2 = children w" and "reaped w2 = reaped w" and "stderr w2 = stderr w"
  using assms by (auto simp: handle_parent_process_def Let_def)

lemma stage_loop_317_abort:
  assumes "i < length (chain c)" and "input_filename (chain c ! i) = Some f"
    and "\<forall>n. open_result e n f [O_RDONLY] \<noteq> None"
    and "stage_loop_317 e c ifd ofd pp cp w = (r, w')"
  shows "r = Some (- 1) \<and> (\<exists>s err. stderr w' = stderr w @ [Perror s err]) \<and>
         (\<exists>k cs. k \<le> i \<and> children w' = children w @ cs \<and>
                  map proc_argv cs = map argv (take k (chain c)))"
  using assms
proof (induction e c ifd ofd pp cp w arbitrary: i r w' rule: stage_loop_317.induct)
  case (1 e ifd ofd pp cp w)
  then show ?case by simp
next
  case (2 e cmd ifd ofd pp cp w)
  obtain rc i1 o1 cp1 w1 where S: "setup_io e cmd ifd ofd cp w = (rc, i1, o1, cp1, w1)"
    by (metis prod_cases5)
  note fr = setup_io_frame [OF S]
  show ?case
  proof (cases "rc = - 1")
    case True
    with "2.prems"(4) S have res: "r = Some (- 1)" "w' = w1"
      by simp_all
    from fr True have "\<exists>s err. stderr w' = stderr w @ [Perror s err]"
      using res by simp
    moreover from fr have "\<exists>k cs. k \<le> i \<and> children w' = children w @ cs \<and>
        map proc_argv cs = map argv (take k (chain (Some cmd)))"
      using res by (intro exI [of _ "0::nat"] exI [of _ "[]"]) simp
    ultimately show ?thesis
      using res by simp
  next
    case False
    with fr have rc0: "rc = 0"
      by simp
    have i_pos: "i \<noteq> 0"
    proof
      assume "i = 0"
      with "2.prems"(2) have "input_filename cmd = Some f"
        by simp
      from setup_io_input_fails [OF this "2.prems"(3), of ifd ofd cp w] S rc0
      show False by simp
    qed
    then obtain j where j: "i = Suc j"
      by (cases i) simp_all
    obtain pid w2 where F: "sys_fork e (execute_child_process e cmd i1 o1 cp1) w1 = (pid, w2)"
      by fastforce
    note ff = sys_fork_frame [OF F]
    from sys_fork_children [OF F] show ?thesis
    proof (elim disjE conjE exE)
      assume pid: "pid = - 1" and ch: "children w2 = children w1"
      with "2.prems"(4) S False F have res: "r = Some (- 1)" "w' = perror ''fork failed'' w2"
        by simp_all
      have "\<exists>s err. stderr w' = stderr w @ [Perror s err]"
        using res ff fr rc0 by simp
      moreover have "\<exists>k cs. k \<le> i \<and> children w' = children w @ cs \<and>
          map proc_argv cs = map argv (take k (chain (Some cmd)))"
        using res ch fr by (intro exI [of _ "0::nat"] exI [of _ "[]"]) simp
      ultimately show ?thesis
        using res by simp
    next
      fix p
      assume pid: "0 < pid"
        and ch: "children w2 = children w1 @ [execute_child_process e cmd i1 o1 cp1 p]"
      obtain i2 pp2 w3 where H: "handle_parent_process cmd i1 pp cp1 w2 = (i2, pp2, w3)"
        by (metis prod_cases3)
      note hf = handle_parent_process_frame [OF H]
      from "2.prems"(4) S False F pid H
      have rec: "stage_loop_317 e (pipe_to cmd) i2 o1 pp2 cp1 w3 = (r, w')"
        by simp
      from "2.prems"(1,2) j have pj: "j < length (chain (pipe_to cmd))"
        "input_filename (chain (pipe_to cmd) ! j) = Some f"
        by simp_all
      have "r = Some (- 1) \<and> (\<exists>s err. stderr w' = stderr w3 @ [Perror s err]) \<and>
            (\<exists>k cs. k \<le> j \<and> children w' = children w3 @ cs \<and>
                     map proc_argv cs = map argv (take k (chain (pipe_to cmd))))"
        using "2.IH" [OF S [symmetric] refl refl refl False F [symmetric] pid
                         H [symmetric] refl pj "2.prems"(3) rec] .
      then obtain s err k cs where r: "r = Some (- 1)"
        and st: "stderr w' = stderr w3 @ [Perror s err]"
        and k: "k \<le> j" and cs: "children w' = children w3 @ cs"
        and args: "map proc_argv cs = map argv (take k (chain (pipe_to cmd)))"
        by blast
      let ?child = "execute_child_process e cmd i1 o1 cp1 p"
      have "stderr w' = stderr w @ [Perror s err]"
        using st hf ff fr rc0 by simp
      moreover have "children w' = children w @ (?child # cs)"
        using cs hf ch fr by simp
      moreover have "map proc_argv (?child # cs) = map argv (take (Suc k) (chain (Some cmd)))"
        using args by (simp add: execute_child_process_argv)
      moreover have "Suc k \<le> i"
        using k j by simp
      ultimately show ?thesis
        using r by blast
    qed
  qed
qed

section \<open>Claims about aborted pipelines\<close>

text \<open>
  C4 (helper-function revision): when some stage of the pipeline names an input file that
  cannot be opened read-only, \<^verbatim>\<open>dispatch_external_command\<close> returns \<open>-1\<close>, prints
  exactly one \<^verbatim>\<open>perror\<close> message, and the processes it has spawned are those of the
  first \<open>k\<close> stages for some \<open>k\<close> not beyond that stage: the stage itself gets no
  process.
\<close>

theorem unopenable_input_file_fails_pipeline:
  assumes "i < length (chain (Some pipeline))"
    and "input_filename (chain (Some pipeline) ! i) = Some f"
    and "\<forall>n. open_result e n f [O_RDONLY] \<noteq> None"
    and "dispatch_external_command_317 e pipeline w = (r, w')"
  shows "r = Ret (- 1) \<and> (\<exists>s err. stderr w' = stderr w @ [Perror s err]) \<and>
         (\<exists>k cs. k \<le> i \<and> children w' = children w @ cs \<and>
                  map proc_argv cs = map argv (take k (chain (Some pipeline))))"
proof -
  obtain rv w1 where L: "stage_loop_317 e (Some pipeline) STDIN_FILENO STDOUT_FILENO (- 1, - 1)
      (uninit_curr_pipe e) w = (rv, w1)"
    by fastforce
  from stage_loop_317_abort [OF assms(1,2,3) L]
  have rv: "rv = Some (- 1)"
    and rest: "(\<exists>s err. stderr w1 = stderr w @ [Perror s err]) \<and>
         (\<exists>k cs. k \<le> i \<and> children w1 = children w @ cs \<and>
                  map proc_argv cs = map argv (take k (chain (Some pipeline))))"
    by simp_all
  from assms(4) L rv have "r = Ret (- 1)" "w' = w1"
    by (simp_all add: dispatch_external_command_317_def)
  with rest show ?thesis
    by simp
qed

theorem unopenable_input_file_fails_pipeline_witness:
  "0 < length (chain (Some cat_missing_input)) \<and>
   input_filename (chain (Some cat_missing_input) ! 0) = Some ''nonexistent_file'' \<and>
   (\<forall>n. open_result env_youngest_first n ''nonexistent_file'' [O_RDONLY] \<noteq> None) \<and>
   fst (dispatch_external_command_317 env_youngest_first cat_missing_input shell_world)
     = Ret (- 1) \<and>
   children (snd (dispatch_external_command_317 env_youngest_first cat_missing_input
     shell_world)) = []"
proof -
  have h1: "0 < length (chain (Some cat_missing_input))"
    by simp
  have h2: "input_filename (chain (Some cat_missing_input) ! 0) = Some ''nonexistent_file''"
    by (simp add: cat_missing_input_def)
  have h3: "\<forall>n. open_result env_youngest_first n ''nonexistent_file'' [O_RDONLY] \<noteq> None"
    by (simp add: env_youngest_first_def files_def)
  obtain r w' where d:
    "dispatch_external_command_317 env_youngest_first cat_missing_input shell_world = (r, w')"
    by fastforce
  from unopenable_input_file_fails_pipeline [OF h1 h2 h3 d]
  have "r = Ret (- 1)" and "children w' = children shell_world"
    by auto
  with d h1 h2 h3 show ?thesis
    by (simp add: shell_world_def)
qed

section \<open>Claims about the line dispatcher\<close>

lemma dispatch_parsed_command_flag:
  assumes "dispatch_parsed_command ext builtin_commands cmd last_rv shell_should_exit w
             = (r, flag, w')"
  shows "flag = shell_should_exit \<or>
         (\<exists>a0 args h. argv cmd = a0 # args \<and> map_of builtin_commands a0 = Some h \<and>
            flag = snd (h (argv cmd) last_rv shell_should_exit))"
  using assms
proof (induction builtin_commands)
  case Nil
  then show ?case by (auto split: prod.splits)
next
  case (Cons b bs)
  obtain name h where b: "b = (name, h)" by (cases b)
  show ?case
  proof (cases "argv cmd")
    case Nil
    with Cons.prems b show ?thesis by simp
  next
    case (Cons a0 args)
    show ?thesis
    proof (cases "name = a0")
      case True
      with Cons.prems b Cons show ?thesis by (auto split: prod.splits)
    next
      case False
      with Cons.prems b Cons
      have "dispatch_parsed_command ext bs cmd last_rv shell_should_exit w = (r, flag, w')"
        by simp
      from Cons.IH [OF this] False b Cons show ?thesis by auto
    qed
  qed
qed

text \<open>
  C9: when parsing succeeds and yields no command (a blank line),
  \<^verbatim>\<open>shell_command_dispatcher\<close> returns the previous status and changes neither the
  exit flag nor anything in the process: it executes nothing.
\<close>

theorem blank_line_returns_previous_status:
  assumes "parse_input input = (0, None)"
  shows "shell_command_dispatcher parse_input parse_error_str ext builtin_commands
           input last_rv shell_should_exit w = (Ret last_rv, shell_should_exit, w)"
  using assms by (simp add: shell_command_dispatcher_def)

theorem blank_line_returns_previous_status_witness:
  "example_parse_input [] = (0, None) \<and>
   shell_command_dispatcher example_parse_input example_parse_error_str
     (dispatch_external_command_317 env_youngest_first) example_builtins
     [] 7 False shell_world = (Ret 7, False, shell_world)"
proof -
  have h: "example_parse_input [] = (0, None)"
    by (simp add: example_parse_input_def)
  from blank_line_returns_previous_status
         [of example_parse_input "[]" example_parse_error_str
             "dispatch_external_command_317 env_youngest_first" example_builtins 7 False
             shell_world, OF h] h
  show ?thesis
    by simp
qed

text \<open>
  C10: on a parse error, on a blank line, and whenever \<^verbatim>\<open>argv[0]\<close> of the parsed command
  names no entry of the builtin table (the external path), the exit flag after
  \<^verbatim>\<open>shell_command_dispatcher\<close> is the flag before it.
\<close>

theorem exit_flag_changed_only_by_builtin:
  assumes "shell_command_dispatcher parse_input parse_error_str ext builtin_commands
             input last_rv shell_should_exit w = (r, flag, w')"
    and "fst (parse_input input) \<noteq> 0 \<or> snd (parse_input input) = None \<or>
         (\<exists>cmd. snd (parse_input input) = Some cmd \<and>
                (\<forall>a0 args. argv cmd = a0 # args \<longrightarrow> a0 \<notin> fst ` set builtin_commands))"
  shows "flag = shell_should_exit"
proof -
  obtain pe pr where p: "parse_input input = (pe, pr)"
    by fastforce
  show ?thesis
  proof (cases "pe \<noteq> 0")
    case True
    with assms(1) p show ?thesis
      by (simp add: shell_command_dispatcher_def)
  next
    case pe: False
    show ?thesis
    proof (cases pr)
      case None
      with assms(1) p pe show ?thesis
        by (simp add: shell_command_dispatcher_def)
    next
      case (Some cmd)
      with assms(1) p pe
      have d: "dispatch_parsed_command ext builtin_commands cmd last_rv shell_should_exit w
                 = (r, flag, w')"
        by (simp add: shell_command_dispatcher_def)
      from assms(2) p pe Some
      have nb: "\<forall>a0 args. argv cmd = a0 # args \<longrightarrow> a0 \<notin> fst ` set builtin_commands"
        by simp
      from dispatch_parsed_command_flag [OF d] show ?thesis
      proof
        assume "flag = shell_should_exit"
        then show ?thesis .
      next
        assume "\<exists>a0 args h. argv cmd = a0 # args \<and> map_of builtin_commands a0 = Some h \<and>
                  flag = snd (h (argv cmd) last_rv shell_should_exit)"
        then obtain a0 args h where "argv cmd = a0 # args" "map_of builtin_commands a0 = Some h"
          by blast
        with nb show ?thesis
          by (metis map_of_eq_None_iff option.distinct(1))
      qed
    qed
  qed
qed

theorem exit_flag_changed_only_by_builtin_witness:
  "shell_command_dispatcher example_parse_input example_parse_error_str
     (dispatch_external_command_317 env_youngest_first) example_builtins
     ''false'' 0 False shell_world
   = (Ret 1, False,
      shell_world\<lparr>reaped := [(101, W_EXITED 1)], errno := ECHILD, clock := 2, last_pid := 101\<rparr>) \<and>
   snd (example_parse_input ''false'') = Some (simple_command [''false'']) \<and>
   ''false'' \<notin> fst ` set example_builtins"
proof -
  have d: "shell_command_dispatcher example_parse_input example_parse_error_str
     (dispatch_external_command_317 env_youngest_first) example_builtins
     ''false'' 0 False shell_world
   = (Ret 1, False,
      shell_world\<lparr>reaped := [(101, W_EXITED 1)], errno := ECHILD, clock := 2, last_pid := 101\<rparr>)"
    by code_simp
  have p: "snd (example_parse_input ''false'') = Some (simple_command [''false''])"
    by (simp add: example_parse_input_def)
  have n: "''false'' \<notin> fst ` set example_builtins"
    by (simp add: example_builtins_def)
  have "fst (example_parse_input ''false'') \<noteq> 0 \<or> snd (example_parse_input ''false'') = None \<or>
         (\<exists>cmd. snd (example_parse_input ''false'') = Some cmd \<and>
                (\<forall>a0 args. argv cmd = a0 # args \<longrightarrow> a0 \<notin> fst ` set example_builtins))"
    using p n by (simp add: simple_command_def)
  from exit_flag_changed_only_by_builtin [OF d this] d p n show ?thesis
    by simp
qed

section \<open>The log of reports\<close>

lemma sys_wait_reaped:
  assumes "sys_wait e w = (Reaped n s, w1)"
  shows "reaped w1 = reaped w @ [(n, s)]"
  using assms by (auto simp: sys_wait_def Let_def split: if_splits)

lemma sys_wait_not_reaped:
  assumes "sys_wait e w = (x, w1)" and "x = No_child \<or> x = Blocks"
  shows "reaped w1 = reaped w"
  using assms by (auto simp: sys_wait_def Let_def split: if_splits)

lemma wait_loop_status:
  assumes "wait_loop e status w = (Some st, w')"
  shows "\<exists>l. reaped w' = reaped w @ l \<and> st = (if l = [] then status else snd (last l))"
  using assms
proof (induction e status w rule: wait_loop.induct)
  case (1 e status w)
  obtain x w1 where W: "sys_wait e w = (x, w1)"
    by fastforce
  show ?case
  proof (cases x)
    case (Reaped n s)
    with "1.prems" W have rec: "wait_loop e s w1 = (Some st, w')"
      by simp
    from "1.IH" [OF W [symmetric] Reaped rec]
    obtain l where l: "reaped w' = reaped w1 @ l" "st = (if l = [] then s else snd (last l))"
      by blast
    from sys_wait_reaped W Reaped have "reaped w1 = reaped w @ [(n, s)]"
      by simp
    with l have "reaped w' = reaped w @ ((n, s) # l) \<and>
        st = (if (n, s) # l = [] then status else snd (last ((n, s) # l)))"
      by simp
    then show ?thesis
      by blast
  next
    case No_child
    with "1.prems" W have "st = status" "w' = w1"
      by simp_all
    moreover from sys_wait_not_reaped [OF W] No_child have "reaped w1 = reaped w"
      by simp
    ultimately show ?thesis
      by simp
  next
    case Blocks
    with "1.prems" W show ?thesis
      by simp
  qed
qed

lemma stage_loop_317_reaped:
  assumes "stage_loop_317 e c ifd ofd pp cp w = (r, w')"
  shows "reaped w' = reaped w"
  using assms
proof (induction e c ifd ofd pp cp w arbitrary: r w' rule: stage_loop_317.induct)
  case (1 e ifd ofd pp cp w)
  then show ?case by simp
next
  case (2 e cmd ifd ofd pp cp w)
  obtain rc i1 o1 cp1 w1 where S: "setup_io e cmd ifd ofd cp w = (rc, i1, o1, cp1, w1)"
    by (metis prod_cases5)
  from setup_io_frame [OF S] have r1: "reaped w1 = reaped w"
    by simp
  obtain pid w2 where F: "sys_fork e (execute_child_process e cmd i1 o1 cp1) w1 = (pid, w2)"
    by fastforce
  from sys_fork_frame [OF F] have r2: "reaped w2 = reaped w1"
    by simp
  obtain i2 pp2 w3 where H: "handle_parent_process cmd i1 pp cp1 w2 = (i2, pp2, w3)"
    by (metis prod_cases3)
  from handle_parent_process_frame [OF H] have r3: "reaped w3 = reaped w2"
    by simp
  show ?case
  proof (cases "rc \<noteq> - 1 \<and> 0 < pid")
    case True
    with "2.prems" S F H have rec: "stage_loop_317 e (pipe_to cmd) i2 o1 pp2 cp1 w3 = (r, w')"
      by simp
    from True have rc: "rc \<noteq> - 1" and pid: "0 < pid"
      by simp_all
    from "2.IH" [OF S [symmetric] refl refl refl rc F [symmetric] pid H [symmetric] refl rec]
    show ?thesis
      using r1 r2 r3 by simp
  next
    case False
    with "2.prems" S F have "w' = w1 \<or> w' = perror ''fork failed'' w2"
      by (auto split: if_splits)
    then show ?thesis
      using r1 r2 by auto
  qed
qed

lemma resolve_output_32_frame:
  assumes "resolve_output_32 e pipeline c ofd cp w = (failed, o1, cp1, w1)"
  shows "reaped w1 = reaped w" and "children w1 = children w"
proof -
  obtain pr wp where P: "sys_pipe e w = (pr, wp)" by fastforce
  obtain ft wt where T: "sys_open e (output_filename c) [O_WRONLY, O_CREAT, O_TRUNC] w = (ft, wt)"
    by fastforce
  obtain fa wa where
    A: "sys_open e (output_filename pipeline) [O_WRONLY, O_CREAT, O_APPEND] w = (fa, wa)"
    by fastforce
  note fp = sys_pipe_frame [OF P] and ftr = sys_open_frame [OF T] and fap = sys_open_frame [OF A]
  have "reaped w1 = reaped w \<and> children w1 = children w"
  proof (cases "output_type c")
    case COMMAND_OUTPUT_STDOUT
    with assms show ?thesis by (simp add: resolve_output_32_def split: if_splits)
  next
    case COMMAND_OUTPUT_FILE_TRUNCATE
    with assms T ftr show ?thesis by (auto simp add: resolve_output_32_def split: if_splits)
  next
    case COMMAND_OUTPUT_FILE_APPEND
    with assms A fap show ?thesis by (auto simp add: resolve_output_32_def split: if_splits)
  next
    case COMMAND_OUTPUT_PIPE
    with assms P fp show ?thesis
      by (cases pr) (auto simp add: resolve_output_32_def split: if_splits)
  qed
  then show "reaped w1 = reaped w" and "children w1 = children w"
    by simp_all
qed

lemma parent_branch_32_frame:
  assumes "parent_branch_32 c pp cp w = (i2, pp2, w2)"
  shows "children w2 = children w" and "reaped w2 = reaped w" and "stderr w2 = stderr w"
  using assms by (auto simp: parent_branch_32_def Let_def)

lemma stage_loop_32_reaped:
  assumes "stage_loop_32 e pipeline c ifd ofd pp cp w = (r, w')"
  shows "reaped w' = reaped w"
  using assms
proof (induction e pipeline c ifd ofd pp cp w arbitrary: r w' rule: stage_loop_32.induct)
  case (1 e pipeline ifd ofd pp cp w)
  then show ?case by simp
next
  case (2 e pipeline cmd ifd ofd pp cp w)
  obtain failed o1 cp1 w1 where
    S: "resolve_output_32 e pipeline cmd ofd cp w = (failed, o1, cp1, w1)"
    by (metis prod_cases4)
  from resolve_output_32_frame [OF S] have r1: "reaped w1 = reaped w"
    by simp
  obtain pid w2 where F: "sys_fork e (child_branch_32 e cmd ifd o1 cp1) w1 = (pid, w2)"
    by fastforce
  from sys_fork_frame [OF F] have r2: "reaped w2 = reaped w1"
    by simp
  obtain i2 pp2 w3 where H: "parent_branch_32 cmd pp cp1 w2 = (i2, pp2, w3)"
    by (metis prod_cases3)
  from parent_branch_32_frame [OF H] have r3: "reaped w3 = reaped w2"
    by simp
  show ?case
  proof (cases "\<not> failed \<and> 0 < pid")
    case True
    with "2.prems" S F H
    have rec: "stage_loop_32 e pipeline (pipe_to cmd) i2 o1 pp2 cp1 w3 = (r, w')"
      by simp
    from True have nf: "\<not> failed" and pid: "0 < pid"
      by simp_all
    from "2.IH" [OF S [symmetric] refl refl nf F [symmetric] pid H [symmetric] refl rec]
    show ?thesis
      using r1 r2 r3 by simp
  next
    case False
    with "2.prems" S F have "w' = w1 \<or> w' = perror ''fork failed'' w2"
      by (auto split: if_splits)
    then show ?thesis
      using r1 r2 by auto
  qed
qed

lemma sys_waitpid_reaped:
  assumes "sys_waitpid n w = (x, w1)"
  shows "(\<exists>m s. x = Reaped m s \<and> reaped w1 = reaped w @ [(m, s)]) \<or>
         ((x = No_child \<or> x = Blocks) \<and> reaped w1 = reaped w)"
  using assms by (auto simp: sys_waitpid_def split: list.splits if_splits)


lemma dispatch_external_command_463_reaped:
  assumes "dispatch_external_command_463 e pipeline w = (x, w')"
  shows "reaped w' = reaped w \<or>
         (\<exists>m st. reaped w' = reaped w @ [(m, st)] \<and>
                  x = Ret (if WIFEXITED st then WEXITSTATUS st else - 1))"
proof -
  obtain ifd w1 where I: "(case input_filename pipeline of None \<Rightarrow> (STDIN_FILENO, w)
      | Some f \<Rightarrow> sys_open e (Some f) [O_RDONLY] w) = (ifd, w1)"
    by fastforce
  have r1: "reaped w1 = reaped w"
    using I by (auto split: option.splits dest: sys_open_frame)
  obtain ofd w2 where O: "(if output_type pipeline = COMMAND_OUTPUT_FILE_TRUNCATE then
        sys_open e (output_filename pipeline) [O_WRONLY, O_CREAT, O_TRUNC] w1
      else if output_type pipeline = COMMAND_OUTPUT_FILE_APPEND then
        sys_open e (output_filename pipeline) [O_WRONLY, O_CREAT, O_APPEND] w1
      else (STDOUT_FILENO, w1)) = (ofd, w2)"
    by fastforce
  have r2: "reaped w2 = reaped w1"
    using O by (auto split: if_splits dest: sys_open_frame)
  obtain pid w3 where F: "sys_fork e (child_branch_463 e pipeline) w2 = (pid, w3)"
    by fastforce
  from sys_fork_frame [OF F] have r3: "reaped w3 = reaped w2"
    by simp
  obtain y w4 where W: "sys_waitpid pid w3 = (y, w4)"
    by fastforce
  show ?thesis
  proof (cases y)
    case (Reaped m st)
    with assms I O F W
    have "(w' = perror ''Failed to open input file'' w1 \<or>
           w' = sys_close ifd (perror ''Failed to open output file for truncation'' w2) \<or>
           w' = sys_close ifd (perror ''Failed to open output file for appending'' w2) \<or>
           w' = perror ''Failed to fork child process'' w3) \<or>
          (w' = w4 \<and> x = Ret (if WIFEXITED st then WEXITSTATUS st else - 1))"
      unfolding dispatch_external_command_463_def
      by (simp split: if_splits)
    moreover from sys_waitpid_reaped [OF W] Reaped have "reaped w4 = reaped w3 @ [(m, st)]"
      by simp
    ultimately show ?thesis
      using r1 r2 r3 by (elim disjE conjE) simp_all
  next
    case No_child
    with assms I O F W
    have "w' = perror ''Failed to open input file'' w1 \<or>
          w' = sys_close ifd (perror ''Failed to open output file for truncation'' w2) \<or>
          w' = sys_close ifd (perror ''Failed to open output file for appending'' w2) \<or>
          w' = perror ''Failed to fork child process'' w3 \<or> w' = w4"
      unfolding dispatch_external_command_463_def
      by (simp split: if_splits)
    moreover from sys_waitpid_reaped [OF W] No_child have "reaped w4 = reaped w3"
      by simp
    ultimately show ?thesis
      using r1 r2 r3 by (elim disjE) simp_all
  next
    case Blocks
    with assms I O F W
    have "w' = perror ''Failed to open input file'' w1 \<or>
          w' = sys_close ifd (perror ''Failed to open output file for truncation'' w2) \<or>
          w' = sys_close ifd (perror ''Failed to open output file for appending'' w2) \<or>
          w' = perror ''Failed to fork child process'' w3 \<or> w' = w4"
      unfolding dispatch_external_command_463_def
      by (simp split: if_splits)
    moreover from sys_waitpid_reaped [OF W] Blocks have "reaped w4 = reaped w3"
      by simp
    ultimately show ?thesis
      using r1 r2 r3 by (elim disjE) simp_all
  qed
qed

section \<open>What the revisions do guarantee\<close>

text \<open>
  The status both pipeline revisions return is that of the process reported last.
\<close>

lemma last_report_decides:
  assumes "wait_loop e status w1 = (Some st, w')" and "reaped w1 = reaped w"
    and "length (reaped w) < length (reaped w')"
  shows "st = snd (last (reaped w'))"
proof -
  from wait_loop_status [OF assms(1)] obtain l
    where l: "reaped w' = reaped w1 @ l" "st = (if l = [] then status else snd (last l))"
    by blast
  with assms(2,3) have "l \<noteq> []"
    by auto
  with l show ?thesis
    by simp
qed

lemma returned_status_317:
  assumes "dispatch_external_command_317 e pipeline w = (Ret r, w')"
    and "length (reaped w) < length (reaped w')"
  shows "r = (if WIFEXITED (snd (last (reaped w'))) then WEXITSTATUS (snd (last (reaped w')))
              else - 1)"
proof -
  obtain rv w1 where L: "stage_loop_317 e (Some pipeline) STDIN_FILENO STDOUT_FILENO (- 1, - 1)
      (uninit_curr_pipe e) w = (rv, w1)"
    by fastforce
  note r1 = stage_loop_317_reaped [OF L]
  show ?thesis
  proof (cases rv)
    case (Some a)
    with assms(1) L have "w' = w1"
      by (simp add: dispatch_external_command_317_def)
    with r1 assms(2) show ?thesis
      by simp
  next
    case None
    obtain so w2 where W: "wait_loop e (uninit_status e) w1 = (so, w2)"
      by fastforce
    with assms(1) L None obtain st where so: "so = Some st" and w2: "w' = w2"
      and r: "r = (if WIFEXITED st then WEXITSTATUS st else - 1)"
      by (cases so) (auto simp add: dispatch_external_command_317_def)
    from last_report_decides [OF W [unfolded so] r1] assms(2) w2 r show ?thesis
      by simp
  qed
qed

lemma returned_status_32:
  assumes "dispatch_external_command_32 e pipeline w = (Ret r, w')"
    and "length (reaped w) < length (reaped w')"
  shows "r = (if WIFEXITED (snd (last (reaped w'))) then WEXITSTATUS (snd (last (reaped w')))
              else - 1)"
proof -
  obtain rv w1 where L: "stage_loop_32 e pipeline (Some pipeline) STDIN_FILENO STDOUT_FILENO
      (- 1, - 1) (uninit_curr_pipe e) w = (rv, w1)"
    by fastforce
  note r1 = stage_loop_32_reaped [OF L]
  show ?thesis
  proof (cases rv)
    case (Some a)
    with assms(1) L have "w' = w1"
      by (simp add: dispatch_external_command_32_def)
    with r1 assms(2) show ?thesis
      by simp
  next
    case None
    obtain so w2 where W: "wait_loop e (uninit_status e) w1 = (so, w2)"
      by fastforce
    with assms(1) L None obtain st where so: "so = Some st" and w2: "w' = w2"
      and r: "r = (if WIFEXITED st then WEXITSTATUS st else - 1)"
      by (cases so) (auto simp add: dispatch_external_command_32_def)
    from last_report_decides [OF W [unfolded so] r1] assms(2) w2 r show ?thesis
      by simp
  qed
qed

text \<open>
  A child whose \<^verbatim>\<open>execvp\<close> fails exits with status 255 in every revision; the first
  pipeline revision and the single-command revision tell \<^verbatim>\<open>ENOENT\<close> from other errors.
\<close>

lemma child_dup2_pid [simp]: "proc_pid (child_dup2 a b p) = proc_pid p"
  by (simp add: child_dup2_def split: option.splits)

lemma child_close_pid [simp]: "proc_pid (child_close a p) = proc_pid p"
  by (simp add: child_close_def split: option.splits)

lemma child_dup2_stderr [simp]: "proc_stderr (child_dup2 a b p) = proc_stderr p"
  by (simp add: child_dup2_def split: option.splits)

lemma child_close_stderr [simp]: "proc_stderr (child_close a p) = proc_stderr p"
  by (simp add: child_close_def split: option.splits)

lemma exit_minus_one: "(word_of_int (- 1) :: 8 word) = 255"
  by simp

lemma child_branch_463_exec_failure:
  assumes "execvp_result e (proc_pid p) (argv c) = Inl err"
  shows "proc_fate (child_branch_463 e c p) = Terminates (W_EXITED 255)"
    and "proc_stderr (child_branch_463 e c p) = proc_stderr p @
           [if err = ENOENT then Fprintf (''error: cannot find command'' @ [CHR 0x0A])
            else Perror ''Failed to execute the external command'' err]"
  using assms
  by (simp_all add: child_branch_463_def execvp_def child_exit_def child_fprintf_def
        child_perror_def)

lemma child_branch_32_exec_failure:
  assumes "execvp_result e (proc_pid p) (argv c) = Inl err"
  shows "proc_fate (child_branch_32 e c ifd ofd cp p) = Terminates (W_EXITED 255)"
    and "proc_stderr (child_branch_32 e c ifd ofd cp p) = proc_stderr p @
           [if err = ENOENT then Fprintf (''error: cannot find command'' @ [CHR 0x0A])
            else Perror ''Failed to execute the external command'' err]"
  using assms
  by (simp_all add: child_branch_32_def execvp_def child_exit_def child_fprintf_def
        child_perror_def Let_def)

lemma execute_child_process_exec_failure:
  assumes "execvp_result e (proc_pid p) (argv c) = Inl err"
  shows "proc_fate (execute_child_process e c ifd ofd cp p) = Terminates (W_EXITED 255)"
    and "proc_stderr (execute_child_process e c ifd ofd cp p) = proc_stderr p @
           [Perror ''execvp failed'' err]"
  using assms
  by (simp_all add: execute_child_process_def execvp_def child_exit_def child_perror_def Let_def)

text \<open>
  In the helper-function revision \<^verbatim>\<open>setup_io\<close> resolves an append disposition by
  opening the stage's own file name with \<^verbatim>\<open>O_WRONLY | O_CREAT | O_APPEND\<close>.
\<close>

lemma setup_io_append:
  assumes "output_type c = COMMAND_OUTPUT_FILE_APPEND" and "input_filename c = None"
  shows "setup_io e c ifd ofd cp w =
           (case sys_open e (output_filename c) [O_WRONLY, O_CREAT, O_APPEND] w of
              (fd, w1) \<Rightarrow>
                if fd = - 1 then (- 1, ifd, fd, cp, perror ''Failed to open output file'' w1)
                else (0, ifd, fd, cp, w1))"
  using assms by (simp add: setup_io_def split: prod.splits)

text \<open>
  The single-command revision waits for its own child: the status it returns is the
  exit code of the program, whatever other children the shell has.
\<close>

lemma single_command_463:
  assumes "input_filename c = None" and "output_type c = COMMAND_OUTPUT_STDOUT"
    and "fork_result e (clock w) = None"
    and "execvp_result e (Suc (last_pid w)) (argv c) = Inr (Terminates (W_EXITED code))"
    and "list_all (\<lambda>p. proc_pid p \<le> last_pid w) (children w)"
  shows "fst (dispatch_external_command_463 e c w) = Ret (uint code)"
proof -
  have "filter (\<lambda>q. int (proc_pid q) = int (Suc (last_pid w))) (children w) = []"
    using assms(5) by (induction "children w") (auto simp: list_all_iff filter_empty_conv)
  with assms(1-4) show ?thesis
    by (simp add: dispatch_external_command_463_def sys_fork_def sys_waitpid_def
          child_branch_463_def execvp_def terminated_def exit_report_def STDIN_FILENO_def
          STDOUT_FILENO_def)
qed

text \<open>
  The pipeline revisions return the exit code of a single command when the shell has no
  other child.
\<close>

lemma single_command_317:
  assumes "input_filename c = None" and "output_type c = COMMAND_OUTPUT_STDOUT"
    and "pipe_to c = None"
    and "fork_result e (clock w) = None"
    and "execvp_result e (Suc (last_pid w)) (argv c) = Inr (Terminates (W_EXITED code))"
    and "children w = []"
  shows "fst (dispatch_external_command_317 e c w) = Ret (uint code)"
  using assms
  apply (simp add: dispatch_external_command_317_def setup_io_def sys_fork_def
          handle_parent_process_def execute_child_process_def execvp_def
          STDIN_FILENO_def STDOUT_FILENO_def Let_def del: wait_loop.simps)
  apply (subst wait_loop.simps)
  apply (simp add: sys_wait_def terminated_def exit_report_def without_pid_def Let_def
          del: wait_loop.simps)
  apply (subst wait_loop.simps)
  apply (simp add: sys_wait_def del: wait_loop.simps)
  done

text \<open>
  The single-command revision also gives up before \<^verbatim>\<open>fork\<close> when the input file cannot
  be opened.
\<close>

lemma unopenable_input_463:
  assumes "input_filename c = Some f" and "\<forall>n. open_result e n f [O_RDONLY] \<noteq> None"
  shows "fst (dispatch_external_command_463 e c w) = Ret (- 1)"
    and "children (snd (dispatch_external_command_463 e c w)) = children w"
proof -
  obtain fd w1 where O: "sys_open e (Some f) [O_RDONLY] w = (fd, w1)"
    by fastforce
  from sys_open_fails [OF assms(2), of w] O have "fd = - 1"
    by simp
  with assms(1) O have "dispatch_external_command_463 e c w
      = (Ret (- 1), perror ''Failed to open input file'' w1)"
    by (simp add: dispatch_external_command_463_def)
  moreover from sys_open_frame [OF O] have "children w1 = children w"
    by simp
  ultimately show "fst (dispatch_external_command_463 e c w) = Ret (- 1)"
    and "children (snd (dispatch_external_command_463 e c w)) = children w"
    by simp_all
qed

section \<open>Pipe descriptors in the shell\<close>

lemma refers_to_new_pipe_simps [simp]:
  "refers_to_new_pipe n None = False"
  "refers_to_new_pipe n (Some Inherited) = False"
  "refers_to_new_pipe n (Some (Pipe_read k)) = (n \<le> k)"
  "refers_to_new_pipe n (Some (Pipe_write k)) = (n \<le> k)"
  "refers_to_new_pipe n (Some (File path flags)) = False"
  by (simp_all add: refers_to_new_pipe_def)

lemma lowest_free_le: "lowest_free t \<le> length t"
  by (induction t rule: lowest_free.induct) simp_all

lemma lowest_free_None: "lowest_free t < length t \<Longrightarrow> t ! lowest_free t = None"
  by (induction t rule: lowest_free.induct) simp_all

lemma set_pipe_fds: "set (pipe_fds n t) = {i. i < length t \<and> refers_to_new_pipe n (t ! i)}"
  by (auto simp: pipe_fds_def)

lemma lowest_free_not_pipe: "lowest_free t \<notin> set (pipe_fds n t)"
  using lowest_free_None [of t] by (auto simp: set_pipe_fds)

lemma pipe_fds_install:
  "set (pipe_fds n (fd_install t (lowest_free t) x)) =
     set (pipe_fds n t) \<union> (if refers_to_new_pipe n (Some x) then {lowest_free t} else {})"
proof (cases "lowest_free t < length t")
  case True
  with lowest_free_None [OF True] show ?thesis
    by (auto simp: set_pipe_fds fd_install_def nth_list_update split: if_splits)
next
  case False
  with lowest_free_le [of t] have eq: "lowest_free t = length t"
    by simp
  then show ?thesis
    by (auto simp: set_pipe_fds fd_install_def nth_append less_Suc_eq split: if_splits)
qed

lemma pipe_fds_remove:
  "set (pipe_fds n (t[i := None])) = set (pipe_fds n t) - {i}"
proof -
  have "refers_to_new_pipe n (t[i := None] ! x) = (x \<noteq> i \<and> refers_to_new_pipe n (t ! x))"
    if "x < length t" for x
    using that by (cases "x = i") simp_all
  then show ?thesis
    by (auto simp: set_pipe_fds)
qed

lemma pipe_fds_sys_close:
  "set (pipe_fds n (fds (sys_close fd w))) =
     (if 0 \<le> fd then set (pipe_fds n (fds w)) - {nat fd} else set (pipe_fds n (fds w)))"
proof (cases "fd_lookup (fds w) fd")
  case None
  then have "nat fd \<notin> set (pipe_fds n (fds w)) \<or> fd < 0"
    by (auto simp: fd_lookup_def set_pipe_fds split: if_splits)
  with None show ?thesis
    by (auto simp: sys_close_def)
next
  case (Some x)
  then have "0 \<le> fd"
    by (simp add: fd_lookup_def split: if_splits)
  with Some show ?thesis
    by (simp add: sys_close_def pipe_fds_remove)
qed

lemma next_pipe_sys_close [simp]: "next_pipe (sys_close fd w) = next_pipe w"
  by (simp add: sys_close_def split: option.splits)

lemma next_pipe_perror [simp]: "next_pipe (perror s w) = next_pipe w"
  by (simp add: perror_def)

lemma sys_open_pipes:
  assumes "sys_open e path flags w = (fd, w1)"
  shows "set (pipe_fds n (fds w1)) = set (pipe_fds n (fds w)) \<and> next_pipe w1 = next_pipe w"
  using assms
  by (auto simp: sys_open_def pipe_fds_install split: option.splits)

lemma sys_fork_pipes:
  assumes "sys_fork e ch w = (pid, w1)"
  shows "fds w1 = fds w" and "next_pipe w1 = next_pipe w"
  using assms by (auto simp: sys_fork_def split: option.splits)

lemma sys_pipe_pipes:
  assumes "sys_pipe e w = (Some (r, wr), w1)" and "n \<le> next_pipe w"
  shows "0 \<le> r" and "0 \<le> wr" and "r \<noteq> wr"
    and "set (pipe_fds n (fds w1)) = set (pipe_fds n (fds w)) \<union> {nat r, nat wr}"
    and "nat r \<notin> set (pipe_fds n (fds w))" and "nat wr \<notin> set (pipe_fds n (fds w))"
    and "next_pipe w \<le> next_pipe w1"
proof -
  define t1 where "t1 = fd_install (fds w) (lowest_free (fds w)) (Pipe_read (next_pipe w))"
  define t2 where "t2 = fd_install t1 (lowest_free t1) (Pipe_write (next_pipe w))"
  from assms(1) have r: "r = int (lowest_free (fds w))" and wr: "wr = int (lowest_free t1)"
    and w1: "fds w1 = t2" and np: "next_pipe w1 = Suc (next_pipe w)"
    by (auto simp: sys_pipe_def Let_def t1_def t2_def split: option.splits)
  have p1: "set (pipe_fds n t1) = set (pipe_fds n (fds w)) \<union> {lowest_free (fds w)}"
    using assms(2) by (simp add: t1_def pipe_fds_install)
  have p2: "set (pipe_fds n t2) = set (pipe_fds n t1) \<union> {lowest_free t1}"
    using assms(2) by (simp add: t2_def pipe_fds_install)
  have nin1: "lowest_free (fds w) \<notin> set (pipe_fds n (fds w))"
    by (rule lowest_free_not_pipe)
  have nin2: "lowest_free t1 \<notin> set (pipe_fds n t1)"
    by (rule lowest_free_not_pipe)
  show "0 \<le> r" and "0 \<le> wr"
    using r wr by simp_all
  show "r \<noteq> wr"
    using nin2 p1 r wr by auto
  show "set (pipe_fds n (fds w1)) = set (pipe_fds n (fds w)) \<union> {nat r, nat wr}"
    using p1 p2 w1 r wr by auto
  show "nat r \<notin> set (pipe_fds n (fds w))"
    using nin1 r by simp
  show "nat wr \<notin> set (pipe_fds n (fds w))"
    using nin2 p1 wr by simp
  show "next_pipe w \<le> next_pipe w1"
    using np by simp
qed


lemma setup_io_pipes:
  assumes "setup_io e c ifd ofd cp w = (0, i1, o1, cp1, w1)" and "n \<le> next_pipe w"
  shows "n \<le> next_pipe w1"
    and "output_type c = COMMAND_OUTPUT_PIPE \<Longrightarrow>
           0 \<le> fst cp1 \<and> fst cp1 \<noteq> snd cp1 \<and> 0 \<le> snd cp1 \<and>
           set (pipe_fds n (fds w1)) = set (pipe_fds n (fds w)) \<union> {nat (fst cp1), nat (snd cp1)}"
    and "output_type c \<noteq> COMMAND_OUTPUT_PIPE \<Longrightarrow>
           set (pipe_fds n (fds w1)) = set (pipe_fds n (fds w))"
proof -
  obtain pr wp where P: "sys_pipe e w = (pr, wp)" by fastforce
  obtain ft wt where T: "sys_open e (output_filename c) [O_WRONLY, O_CREAT, O_TRUNC] w = (ft, wt)"
    by fastforce
  obtain fa wa where A: "sys_open e (output_filename c) [O_WRONLY, O_CREAT, O_APPEND] w = (fa, wa)"
    by fastforce
  note ftr = sys_open_pipes [OF T, where n = n] and fap = sys_open_pipes [OF A, where n = n]
  have "n \<le> next_pipe w1 \<and>
        (if output_type c = COMMAND_OUTPUT_PIPE
         then 0 \<le> fst cp1 \<and> fst cp1 \<noteq> snd cp1 \<and> 0 \<le> snd cp1 \<and>
              set (pipe_fds n (fds w1)) = set (pipe_fds n (fds w)) \<union> {nat (fst cp1), nat (snd cp1)}
         else set (pipe_fds n (fds w1)) = set (pipe_fds n (fds w)))"
  proof (cases "input_filename c")
    case None
    show ?thesis
    proof (cases "output_type c")
      case COMMAND_OUTPUT_STDOUT
      with None assms show ?thesis by (simp add: setup_io_def split: if_splits)
    next
      case COMMAND_OUTPUT_FILE_TRUNCATE
      with None assms T ftr show ?thesis by (auto simp add: setup_io_def split: if_splits)
    next
      case COMMAND_OUTPUT_FILE_APPEND
      with None assms A fap show ?thesis by (auto simp add: setup_io_def split: if_splits)
    next
      case COMMAND_OUTPUT_PIPE
      with None assms P have pr: "pr = Some cp1" and w: "w1 = wp"
        by (cases pr; simp add: setup_io_def split: if_splits)+
      obtain r wr where c: "cp1 = (r, wr)"
        by (cases cp1)
      from sys_pipe_pipes [OF P [unfolded pr c] assms(2)] c w COMMAND_OUTPUT_PIPE assms(2)
      show ?thesis by simp
    qed
  next
    case (Some f)
    obtain f0 w0 where I0: "sys_open e (Some f) [O_RDONLY] w = (f0, w0)" by fastforce
    obtain f1 w1' where I1: "sys_open e (Some f) [O_RDONLY] wt = (f1, w1')" by fastforce
    obtain f2 w2 where I2: "sys_open e (Some f) [O_RDONLY] wa = (f2, w2)" by fastforce
    obtain f3 w3 where I3: "sys_open e (Some f) [O_RDONLY] wp = (f3, w3)" by fastforce
    note g0 = sys_open_pipes [OF I0, where n = n] and g1 = sys_open_pipes [OF I1, where n = n]
      and g2 = sys_open_pipes [OF I2, where n = n] and g3 = sys_open_pipes [OF I3, where n = n]
    show ?thesis
    proof (cases "output_type c")
      case COMMAND_OUTPUT_STDOUT
      with Some assms I0 g0 show ?thesis by (auto simp add: setup_io_def split: if_splits)
    next
      case COMMAND_OUTPUT_FILE_TRUNCATE
      with Some assms T ftr I1 g1 show ?thesis by (auto simp add: setup_io_def split: if_splits)
    next
      case COMMAND_OUTPUT_FILE_APPEND
      with Some assms A fap I2 g2 show ?thesis by (auto simp add: setup_io_def split: if_splits)
    next
      case COMMAND_OUTPUT_PIPE
      with Some assms P I3 have pr: "pr = Some cp1" and w: "w1 = w3"
        by (cases pr; simp add: setup_io_def split: if_splits)+
      obtain r wr where c: "cp1 = (r, wr)"
        by (cases cp1)
      from sys_pipe_pipes [OF P [unfolded pr c] assms(2)] g3 c w COMMAND_OUTPUT_PIPE assms(2)
      show ?thesis by simp
    qed
  qed
  then show "n \<le> next_pipe w1"
    and "output_type c = COMMAND_OUTPUT_PIPE \<Longrightarrow>
           0 \<le> fst cp1 \<and> fst cp1 \<noteq> snd cp1 \<and> 0 \<le> snd cp1 \<and>
           set (pipe_fds n (fds w1)) = set (pipe_fds n (fds w)) \<union> {nat (fst cp1), nat (snd cp1)}"
    and "output_type c \<noteq> COMMAND_OUTPUT_PIPE \<Longrightarrow>
           set (pipe_fds n (fds w1)) = set (pipe_fds n (fds w))"
    by simp_all
qed

lemma handle_parent_process_pipes:
  assumes "handle_parent_process c ifd pp cp w = (i2, pp2, w2)"
  shows "pp2 = cp" and "next_pipe w2 = next_pipe w"
    and "fds w2 = fds (let w1 = (if output_type c = COMMAND_OUTPUT_PIPE
                                  then sys_close (snd cp) w else w)
                       in if fst pp \<noteq> - 1 then sys_close (fst pp) w1 else w1)"
  using assms by (auto simp: handle_parent_process_def Let_def)

lemma pipe_fds_sys_close_subset:
  "set (pipe_fds n (fds (sys_close fd w))) \<subseteq> set (pipe_fds n (fds w))"
  by (auto simp: pipe_fds_sys_close)

lemma pipe_fds_sys_close_valid:
  "0 \<le> fd \<Longrightarrow> set (pipe_fds n (fds (sys_close fd w))) = set (pipe_fds n (fds w)) - {nat fd}"
  by (simp add: pipe_fds_sys_close)

lemma stage_loop_317_closes_pipes:
  assumes "stage_loop_317 e c ifd ofd pp cp w = (None, w')"
    and "list_all (\<lambda>s. (output_type s = COMMAND_OUTPUT_PIPE) = (pipe_to s \<noteq> None)) (chain c)"
    and "n \<le> next_pipe w"
    and "c = None \<Longrightarrow> set (pipe_fds n (fds w)) = {}"
    and "set (pipe_fds n (fds w)) = {} \<or>
         (0 \<le> fst pp \<and> set (pipe_fds n (fds w)) \<subseteq> {nat (fst pp)})"
  shows "set (pipe_fds n (fds w')) = {}"
  using assms
proof (induction e c ifd ofd pp cp w arbitrary: w' rule: stage_loop_317.induct)
  case (1 e ifd ofd pp cp w)
  from "1.prems"(1) have "w' = w"
    by simp
  with "1.prems"(4) show ?case
    by simp
next
  case (2 e cmd ifd ofd pp cp w)
  obtain rc i1 o1 cp1 w1 where S: "setup_io e cmd ifd ofd cp w = (rc, i1, o1, cp1, w1)"
    by (metis prod_cases5)
  obtain pid w2 where F: "sys_fork e (execute_child_process e cmd i1 o1 cp1) w1 = (pid, w2)"
    by fastforce
  obtain i2 pp2 w3 where H: "handle_parent_process cmd i1 pp cp1 w2 = (i2, pp2, w3)"
    by (metis prod_cases3)
  from "2.prems"(1) S F have rc: "rc \<noteq> - 1" and pid: "0 < pid"
    by (auto split: if_splits)
  with setup_io_frame [OF S] have rc0: "rc = 0"
    by simp
  from "2.prems"(1) S F H rc pid
  have rec: "stage_loop_317 e (pipe_to cmd) i2 o1 pp2 cp1 w3 = (None, w')"
    by simp
  note sp = setup_io_pipes [OF S [unfolded rc0] "2.prems"(3)]
  note fp = sys_fork_pipes [OF F]
  note hp = handle_parent_process_pipes [OF H]
  from "2.prems"(2) have wf_here: "(output_type cmd = COMMAND_OUTPUT_PIPE) = (pipe_to cmd \<noteq> None)"
    and wf_rest: "list_all (\<lambda>s. (output_type s = COMMAND_OUTPUT_PIPE) = (pipe_to s \<noteq> None))
                    (chain (pipe_to cmd))"
    by simp_all
  have n3: "n \<le> next_pipe w3"
    using sp(1) fp(2) hp(2) by simp
  note inv = "2.prems"(5)
  define wa where "wa = (if output_type cmd = COMMAND_OUTPUT_PIPE
                         then sys_close (snd cp1) w2 else w2)"
  have w3: "fds w3 = fds (if fst pp \<noteq> - 1 then sys_close (fst pp) wa else wa)"
    using hp(3) by (simp add: wa_def Let_def)
  have sub3: "set (pipe_fds n (fds w3)) \<subseteq> set (pipe_fds n (fds wa))"
    using pipe_fds_sys_close_subset [of n "fst pp" wa] by (simp add: w3)
  have cut3: "set (pipe_fds n (fds w3)) = set (pipe_fds n (fds wa)) - {nat (fst pp)}"
    if "0 \<le> fst pp"
    using that pipe_fds_sys_close_valid [of "fst pp" n wa] by (simp add: w3)
  show ?case
  proof (cases "output_type cmd = COMMAND_OUTPUT_PIPE")
    case True
    from sp(2) [OF True] have r0: "0 \<le> fst cp1" and w0: "0 \<le> snd cp1"
      and s1: "set (pipe_fds n (fds w1)) =
                 set (pipe_fds n (fds w)) \<union> {nat (fst cp1), nat (snd cp1)}"
      by simp_all
    have sa: "set (pipe_fds n (fds wa)) =
                (set (pipe_fds n (fds w)) \<union> {nat (fst cp1), nat (snd cp1)}) - {nat (snd cp1)}"
      using True pipe_fds_sys_close_valid [OF w0, of n w2] s1 fp(1) by (simp add: wa_def)
    have s3: "set (pipe_fds n (fds w3)) \<subseteq> {nat (fst cp1)}"
      using inv
    proof
      assume "set (pipe_fds n (fds w)) = {}"
      with sa have "set (pipe_fds n (fds wa)) \<subseteq> {nat (fst cp1)}"
        by auto
      with sub3 show ?thesis
        by (rule subset_trans)
    next
      assume a: "0 \<le> fst pp \<and> set (pipe_fds n (fds w)) \<subseteq> {nat (fst pp)}"
      then have p: "0 \<le> fst pp" and o: "set (pipe_fds n (fds w)) \<subseteq> {nat (fst pp)}"
        by simp_all
      from cut3 [OF p] sa o show ?thesis
        by auto
    qed
    have i5: "set (pipe_fds n (fds w3)) = {} \<or>
              (0 \<le> fst pp2 \<and> set (pipe_fds n (fds w3)) \<subseteq> {nat (fst pp2)})"
      using s3 r0 hp(1) by simp
    from True wf_here have "pipe_to cmd = None \<Longrightarrow> set (pipe_fds n (fds w3)) = {}"
      by simp
    from "2.IH" [OF S [symmetric] refl refl refl rc F [symmetric] pid H [symmetric] refl
                    rec wf_rest n3 this i5]
    show ?thesis .
  next
    case False
    from sp(3) [OF False] have s1: "set (pipe_fds n (fds w1)) = set (pipe_fds n (fds w))" .
    have sa: "set (pipe_fds n (fds wa)) = set (pipe_fds n (fds w))"
      using False s1 fp(1) by (simp add: wa_def)
    have e3: "set (pipe_fds n (fds w3)) = {}"
      using inv
    proof
      assume "set (pipe_fds n (fds w)) = {}"
      with sa have "set (pipe_fds n (fds wa)) \<subseteq> {}"
        by simp
      with sub3 have "set (pipe_fds n (fds w3)) \<subseteq> {}"
        by (rule subset_trans)
      then show ?thesis
        by (rule subset_antisym) (rule empty_subsetI)
    next
      assume a: "0 \<le> fst pp \<and> set (pipe_fds n (fds w)) \<subseteq> {nat (fst pp)}"
      then have p: "0 \<le> fst pp" and o: "set (pipe_fds n (fds w)) \<subseteq> {nat (fst pp)}"
        by simp_all
      from cut3 [OF p] sa o have "set (pipe_fds n (fds w3)) \<subseteq> {}"
        by auto
      then show ?thesis
        by (rule subset_antisym) (rule empty_subsetI)
    qed
    from False wf_here have "pipe_to cmd = None"
      by simp
    with rec have "w' = w3"
      by simp
    with e3 show ?thesis
      by simp
  qed
qed


lemma stage_loop_317_outcome:
  assumes "stage_loop_317 e c ifd ofd pp cp w = (r, w')"
  shows "(r = None \<and> stderr w' = stderr w) \<or>
         (r = Some (- 1) \<and> (\<exists>s err. stderr w' = stderr w @ [Perror s err]))"
  using assms
proof (induction e c ifd ofd pp cp w arbitrary: r w' rule: stage_loop_317.induct)
  case (1 e ifd ofd pp cp w)
  then show ?case by simp
next
  case (2 e cmd ifd ofd pp cp w)
  obtain rc i1 o1 cp1 w1 where S: "setup_io e cmd ifd ofd cp w = (rc, i1, o1, cp1, w1)"
    by (metis prod_cases5)
  note fr = setup_io_frame [OF S]
  obtain pid w2 where F: "sys_fork e (execute_child_process e cmd i1 o1 cp1) w1 = (pid, w2)"
    by fastforce
  note ff = sys_fork_frame [OF F]
  obtain i2 pp2 w3 where H: "handle_parent_process cmd i1 pp cp1 w2 = (i2, pp2, w3)"
    by (metis prod_cases3)
  note hf = handle_parent_process_frame [OF H]
  show ?case
  proof (cases "rc = - 1")
    case True
    with "2.prems" S have "r = Some (- 1)" "w' = w1"
      by simp_all
    with fr True show ?thesis
      by simp
  next
    case rc: False
    with fr have s1: "stderr w1 = stderr w"
      by simp
    show ?thesis
    proof (cases "0 < pid")
      case True
      with "2.prems" S F H rc
      have rec: "stage_loop_317 e (pipe_to cmd) i2 o1 pp2 cp1 w3 = (r, w')"
        by simp
      from "2.IH" [OF S [symmetric] refl refl refl rc F [symmetric] True H [symmetric] refl rec]
      show ?thesis
        using s1 ff hf by simp
    next
      case False
      with "2.prems" S F rc have "r = Some (- 1)" "w' = perror ''fork failed'' w2"
        by simp_all
      with s1 ff show ?thesis
        by simp
    qed
  qed
qed

lemma wait_loop_frame:
  assumes "wait_loop e status w = (x, w')"
  shows "fds w' = fds w \<and> stderr w' = stderr w"
  using assms
proof (induction e status w rule: wait_loop.induct)
  case (1 e status w)
  obtain y w1 where W: "sys_wait e w = (y, w1)"
    by fastforce
  then have f1: "fds w1 = fds w \<and> stderr w1 = stderr w"
    by (auto simp: sys_wait_def Let_def split: if_splits)
  show ?case
  proof (cases y)
    case (Reaped n s)
    with "1.prems" W have "wait_loop e s w1 = (x, w')"
      by simp
    from "1.IH" [OF W [symmetric] Reaped this] f1 show ?thesis
      by simp
  next
    case No_child
    with "1.prems" W f1 show ?thesis
      by auto
  next
    case Blocks
    with "1.prems" W f1 show ?thesis
      by auto
  qed
qed

text \<open>
  When the helper-function revision reports no failure for a pipeline in which exactly
  the stages with pipe output have a successor, no descriptor of the shell refers to a
  pipe created during the invocation once it is over.
\<close>

lemma unreported_pipeline_leaves_no_pipe_open:
  assumes "well_formed pipeline" and "pipe_fds (next_pipe w) (fds w) = []"
    and "dispatch_external_command_317 e pipeline w = (r, w')"
    and "stderr w' = stderr w"
  shows "pipe_fds (next_pipe w) (fds w') = []"
proof -
  obtain rv w1 where L: "stage_loop_317 e (Some pipeline) STDIN_FILENO STDOUT_FILENO (- 1, - 1)
      (uninit_curr_pipe e) w = (rv, w1)"
    by fastforce
  obtain so w2 where W: "wait_loop e (uninit_status e) w1 = (so, w2)"
    by fastforce
  note wf = wait_loop_frame [OF W]
  have none: "rv = None"
  proof (rule ccontr)
    assume "rv \<noteq> None"
    with stage_loop_317_outcome [OF L] obtain s err
      where "rv = Some (- 1)" and st: "stderr w1 = stderr w @ [Perror s err]"
      by auto
    with assms(3) L have "w' = w1"
      by (simp add: dispatch_external_command_317_def)
    with st assms(4) show False
      by simp
  qed
  with assms(3) L W have w': "w' = w2"
    by (cases so) (simp_all add: dispatch_external_command_317_def)
  from assms(1) have wfc:
    "list_all (\<lambda>s. (output_type s = COMMAND_OUTPUT_PIPE) = (pipe_to s \<noteq> None))
       (chain (Some pipeline))"
    by (simp add: well_formed_def)
  have "set (pipe_fds (next_pipe w) (fds w1)) = {}"
    using assms(2)
    by (intro stage_loop_317_closes_pipes [OF L [unfolded none] wfc]) simp_all
  with wf w' show ?thesis
    by simp
qed

section \<open>The status returned when the last report is a signal\<close>

lemma ended_by_signal_simps [simp]:
  "ended_by_signal (Terminates (W_EXITED c)) = False"
  "ended_by_signal (Terminates (W_SIGNALED s)) = True"
  "ended_by_signal Runs_forever = False"
  by (simp_all add: ended_by_signal_def)

lemma child_dup2_fate [simp]: "proc_fate (child_dup2 a b p) = proc_fate p"
  by (simp add: child_dup2_def split: option.splits)

lemma child_close_fate [simp]: "proc_fate (child_close a p) = proc_fate p"
  by (simp add: child_close_def split: option.splits)

lemma execvp_pid:
  assumes "\<And>q. proc_pid (g q) = proc_pid q"
  shows "proc_pid (execvp e args g p) = proc_pid p"
  using assms by (simp add: execvp_def split: sum.splits)

lemma child_exit_pid [simp]: "proc_pid (child_exit n p) = proc_pid p"
  by (simp add: child_exit_def)

lemma child_perror_pid [simp]: "proc_pid (child_perror s p) = proc_pid p"
  by (simp add: child_perror_def)

lemma child_fprintf_pid [simp]: "proc_pid (child_fprintf s p) = proc_pid p"
  by (simp add: child_fprintf_def)

lemma execute_child_process_pid [simp]:
  "proc_pid (execute_child_process e c ifd ofd cp p) = proc_pid p"
  by (simp add: execute_child_process_def Let_def execvp_pid)

lemma child_branch_32_pid [simp]:
  "proc_pid (child_branch_32 e c ifd ofd cp p) = proc_pid p"
  by (simp add: child_branch_32_def Let_def execvp_pid)

lemma child_branch_463_pid [simp]:
  "proc_pid (child_branch_463 e c p) = proc_pid p"
  by (simp add: child_branch_463_def execvp_pid)

lemma execute_child_process_fate:
  "proc_fate (execute_child_process e c ifd ofd cp p) = fate_of e (proc_pid p) (argv c)"
  by (simp add: execute_child_process_def Let_def execvp_def child_exit_def fate_of_def
        split: sum.splits)

lemma child_branch_32_fate:
  "proc_fate (child_branch_32 e c ifd ofd cp p) = fate_of e (proc_pid p) (argv c)"
  by (simp add: child_branch_32_def Let_def execvp_def child_exit_def fate_of_def
        split: sum.splits)

lemma child_branch_463_fate:
  "proc_fate (child_branch_463 e c p) = fate_of e (proc_pid p) (argv c)"
  by (simp add: child_branch_463_def execvp_def child_exit_def fate_of_def split: sum.splits)

lemma sys_fork_child:
  assumes "sys_fork e ch w = (pid, w1)"
  shows "(pid = - 1 \<and> children w1 = children w \<and> last_pid w1 = last_pid w) \<or>
         (0 < pid \<and> pid = int (Suc (last_pid w)) \<and> last_pid w1 = Suc (last_pid w) \<and>
          (\<exists>p. proc_pid p = Suc (last_pid w) \<and> children w1 = children w @ [ch p]))"
proof (cases "fork_result e (clock w)")
  case (Some err)
  with assms show ?thesis
    by (auto simp: sys_fork_def)
next
  case None
  let ?p = "\<lparr>proc_pid = Suc (last_pid w), proc_fds = fds w, proc_errno = errno w,
             proc_argv = [], exec_failed = None, proc_stderr = [],
             proc_fate = Runs_forever\<rparr>"
  from None assms have "0 < pid" and "pid = int (Suc (last_pid w))"
    and "last_pid w1 = Suc (last_pid w)" and "children w1 = children w @ [ch ?p]"
    by (auto simp: sys_fork_def)
  moreover have "proc_pid ?p = Suc (last_pid w)"
    by simp
  ultimately show ?thesis
    by blast
qed

lemma last_pid_perror [simp]: "last_pid (perror s w) = last_pid w"
  by (simp add: perror_def)

lemma last_pid_sys_close [simp]: "last_pid (sys_close fd w) = last_pid w"
  by (simp add: sys_close_def split: option.splits)

lemma sys_pipe_last_pid:
  assumes "sys_pipe e w = (r, w1)"
  shows "last_pid w1 = last_pid w"
  using assms by (auto simp: sys_pipe_def Let_def split: option.splits)

lemma sys_open_last_pid:
  assumes "sys_open e path flags w = (fd, w1)"
  shows "last_pid w1 = last_pid w"
  using assms by (auto simp: sys_open_def split: option.splits)

lemma handle_parent_process_last_pid:
  assumes "handle_parent_process c ifd pp cp w = (i2, pp2, w2)"
  shows "last_pid w2 = last_pid w"
  using assms by (auto simp: handle_parent_process_def Let_def)

lemma parent_branch_32_last_pid:
  assumes "parent_branch_32 c pp cp w = (i2, pp2, w2)"
  shows "last_pid w2 = last_pid w"
  using assms by (auto simp: parent_branch_32_def Let_def)

lemma setup_io_last_pid:
  assumes "setup_io e c ifd ofd cp w = (rc, i1, o1, cp1, w1)"
  shows "last_pid w1 = last_pid w"
proof -
  obtain pr wp where P: "sys_pipe e w = (pr, wp)" by fastforce
  obtain ft wt where T: "sys_open e (output_filename c) [O_WRONLY, O_CREAT, O_TRUNC] w = (ft, wt)"
    by fastforce
  obtain fa wa where A: "sys_open e (output_filename c) [O_WRONLY, O_CREAT, O_APPEND] w = (fa, wa)"
    by fastforce
  note fp = sys_pipe_last_pid [OF P] and ftr = sys_open_last_pid [OF T]
    and fap = sys_open_last_pid [OF A]
  show ?thesis
  proof (cases "input_filename c")
    case None
    show ?thesis
    proof (cases "output_type c")
      case COMMAND_OUTPUT_STDOUT
      with None assms show ?thesis by (simp add: setup_io_def split: if_splits)
    next
      case COMMAND_OUTPUT_FILE_TRUNCATE
      with None assms T ftr show ?thesis by (auto simp add: setup_io_def split: if_splits)
    next
      case COMMAND_OUTPUT_FILE_APPEND
      with None assms A fap show ?thesis by (auto simp add: setup_io_def split: if_splits)
    next
      case COMMAND_OUTPUT_PIPE
      with None assms P fp show ?thesis
        by (cases pr) (auto simp add: setup_io_def split: if_splits)
    qed
  next
    case (Some f)
    obtain f0 w0 where I0: "sys_open e (Some f) [O_RDONLY] w = (f0, w0)" by fastforce
    obtain f1 w1' where I1: "sys_open e (Some f) [O_RDONLY] wt = (f1, w1')" by fastforce
    obtain f2 w2 where I2: "sys_open e (Some f) [O_RDONLY] wa = (f2, w2)" by fastforce
    obtain f3 w3 where I3: "sys_open e (Some f) [O_RDONLY] wp = (f3, w3)" by fastforce
    note g0 = sys_open_last_pid [OF I0] and g1 = sys_open_last_pid [OF I1]
      and g2 = sys_open_last_pid [OF I2] and g3 = sys_open_last_pid [OF I3]
    show ?thesis
    proof (cases "output_type c")
      case COMMAND_OUTPUT_STDOUT
      with Some assms I0 g0 show ?thesis by (auto simp add: setup_io_def split: if_splits)
    next
      case COMMAND_OUTPUT_FILE_TRUNCATE
      with Some assms T ftr I1 g1 show ?thesis by (auto simp add: setup_io_def split: if_splits)
    next
      case COMMAND_OUTPUT_FILE_APPEND
      with Some assms A fap I2 g2 show ?thesis by (auto simp add: setup_io_def split: if_splits)
    next
      case COMMAND_OUTPUT_PIPE
      with Some assms P fp I3 g3 show ?thesis
        by (cases pr) (auto simp add: setup_io_def split: if_splits)
    qed
  qed
qed

lemma resolve_output_32_result:
  assumes "resolve_output_32 e pipeline c ofd cp w = (failed, o1, cp1, w1)"
  shows "last_pid w1 = last_pid w"
proof -
  obtain pr wp where P: "sys_pipe e w = (pr, wp)" by fastforce
  obtain ft wt where T: "sys_open e (output_filename c) [O_WRONLY, O_CREAT, O_TRUNC] w = (ft, wt)"
    by fastforce
  obtain fa wa where
    A: "sys_open e (output_filename pipeline) [O_WRONLY, O_CREAT, O_APPEND] w = (fa, wa)"
    by fastforce
  note fp = sys_pipe_last_pid [OF P] and ftr = sys_open_last_pid [OF T]
    and fap = sys_open_last_pid [OF A]
  show ?thesis
  proof (cases "output_type c")
    case COMMAND_OUTPUT_STDOUT
    with assms show ?thesis by (simp add: resolve_output_32_def split: if_splits)
  next
    case COMMAND_OUTPUT_FILE_TRUNCATE
    with assms T ftr show ?thesis by (auto simp add: resolve_output_32_def split: if_splits)
  next
    case COMMAND_OUTPUT_FILE_APPEND
    with assms A fap show ?thesis by (auto simp add: resolve_output_32_def split: if_splits)
  next
    case COMMAND_OUTPUT_PIPE
    with assms P fp show ?thesis
      by (cases pr) (auto simp add: resolve_output_32_def split: if_splits)
  qed
qed


lemma fate_of_terminates:
  assumes "\<forall>n args. execvp_result e n args \<noteq> Inr Runs_forever"
  shows "fate_of e n args \<noteq> Runs_forever"
  using assms by (auto simp: fate_of_def split: sum.splits)

lemma terminated_iff: "terminated p = (proc_fate p \<noteq> Runs_forever)"
  by (simp add: terminated_def split: fate.splits)

lemma fate_of_signal:
  assumes "execvp_result e n args = Inr (Terminates (W_SIGNALED s))"
  shows "ended_by_signal (fate_of e n args)"
  using assms by (simp add: fate_of_def)

lemma ended_by_signal_report:
  assumes "ended_by_signal (proc_fate p)"
  shows "\<not> WIFEXITED (exit_report p)"
proof (cases "proc_fate p")
  case (Terminates st)
  with assms show ?thesis
    by (cases st) (simp_all add: exit_report_def)
next
  case Runs_forever
  with assms show ?thesis
    by simp
qed

text \<open>
  Let \<open>K\<close> be a set of process ids. When every child terminates, the children with an id
  in \<open>K\<close> are ended by a signal, \<^verbatim>\<open>wait\<close> never reports a process of \<open>K\<close> while a process
  outside \<open>K\<close> has terminated, and some child has its id in \<open>K\<close>, the loop ends with the
  status of a process of \<open>K\<close>.
\<close>

lemma wait_loop_kept_for_last:
  assumes "\<forall>p\<in>set (children w). terminated p"
    and "\<forall>p\<in>set (children w). proc_pid p \<in> K \<longrightarrow> ended_by_signal (proc_fate p)"
    and "\<forall>n pids. (\<exists>x\<in>set pids. x \<notin> K) \<longrightarrow> pids ! (wait_choice e n pids mod length pids) \<notin> K"
    and "\<exists>p\<in>set (children w). proc_pid p \<in> K"
  shows "\<exists>st w'. wait_loop e status w = (Some st, w') \<and> \<not> WIFEXITED st"
  using assms
proof (induction e status w rule: wait_loop.induct)
  case (1 e status w)
  note t = "1.prems"(1) and k = "1.prems"(2) and o = "1.prems"(3) and ex = "1.prems"(4)
  let ?cs = "children w"
  let ?pids = "map proc_pid ?cs"
  define i where "i = wait_choice e (clock w) ?pids mod length ?cs"
  define p where "p = ?cs ! i"
  define w1 where "w1 = w\<lparr>children := without_pid (proc_pid p) ?cs,
      reaped := reaped w @ [(proc_pid p, exit_report p)], clock := Suc (clock w)\<rparr>"
  from ex have ne: "?cs \<noteq> []"
    by auto
  from t have ready: "filter terminated ?cs = ?cs"
    by (simp add: filter_id_conv)
  from ne have i: "i < length ?cs"
    by (simp add: i_def)
  then have pin: "p \<in> set ?cs"
    by (simp add: p_def)
  have W: "sys_wait e w = (Reaped (proc_pid p) (exit_report p), w1)"
    using ne by (simp add: sys_wait_def ready Let_def p_def i_def w1_def)
  have step: "wait_loop e status w = wait_loop e (exit_report p) w1"
    by (subst wait_loop.simps) (simp add: W)
  have sub: "set (children w1) \<subseteq> set ?cs"
    by (auto simp: w1_def without_pid_def)
  from t sub have t1: "\<forall>q\<in>set (children w1). terminated q"
    by blast
  from k sub have k1: "\<forall>q\<in>set (children w1). proc_pid q \<in> K \<longrightarrow> ended_by_signal (proc_fate q)"
    by blast
  show ?case
  proof (cases "\<exists>q\<in>set (children w1). proc_pid q \<in> K")
    case True
    from "1.IH" [OF W [symmetric] refl t1 k1 o True] step show ?thesis
      by simp
  next
    case False
    have pk: "proc_pid p \<in> K"
    proof (rule ccontr)
      assume n: "proc_pid p \<notin> K"
      from ex obtain q where q: "q \<in> set ?cs" "proc_pid q \<in> K"
        by blast
      with n have "q \<in> set (children w1)"
        by (auto simp: w1_def without_pid_def)
      with q False show False
        by blast
    qed
    have "?pids ! (wait_choice e (clock w) ?pids mod length ?pids) = proc_pid p"
      using i by (simp add: p_def i_def)
    with o [rule_format, of ?pids "clock w"] pk have allK: "\<forall>x\<in>set ?pids. x \<in> K"
      by auto
    have empty: "children w1 = []"
    proof (rule ccontr)
      assume "children w1 \<noteq> []"
      then obtain q where q: "q \<in> set (children w1)"
        by (cases "children w1") auto
      with sub allK have "proc_pid q \<in> K"
        by auto
      with q False show False
        by blast
    qed
    have fin: "wait_loop e (exit_report p) w1 = (Some (exit_report p), w1\<lparr>errno := ECHILD\<rparr>)"
      by (subst wait_loop.simps) (simp add: sys_wait_def empty)
    from k pin pk have "ended_by_signal (proc_fate p)"
      by blast
    then have "\<not> WIFEXITED (exit_report p)"
      by (rule ended_by_signal_report)
    with step fin show ?thesis
      by simp
  qed
qed


text \<open>
  What the stage loops do to the children of the shell: every child they add terminates
  when programs do, the child of stage \<open>j\<close> has process id \<open>last_pid w + Suc j\<close> and ends
  as its program does, and a loop left at its end has spawned a child for every stage.
\<close>

lemma new_child_good:
  assumes t: "\<forall>p\<in>set cs. terminated p"
    and k: "\<forall>p\<in>set cs. proc_pid p \<in> K \<longrightarrow> ended_by_signal (proc_fate p)"
    and h3: "\<forall>n args. execvp_result e n args \<noteq> Inr Runs_forever"
    and pid: "proc_pid q = n" and fate: "proc_fate q = fate_of e n args"
    and h4: "n \<in> K \<longrightarrow> ended_by_signal (fate_of e n args)"
  shows "(\<forall>p\<in>set (cs @ [q]). terminated p) \<and>
         (\<forall>p\<in>set (cs @ [q]). proc_pid p \<in> K \<longrightarrow> ended_by_signal (proc_fate p))"
proof -
  from fate fate_of_terminates [OF h3] have "terminated q"
    by (simp add: terminated_iff)
  moreover from pid fate h4 have "proc_pid q \<in> K \<longrightarrow> ended_by_signal (proc_fate q)"
    by simp
  ultimately show ?thesis
    using t k by auto
qed

lemma stage_loop_317_children:
  assumes "stage_loop_317 e c ifd ofd pp cp w = (r, w')"
    and "\<forall>p\<in>set (children w). terminated p"
    and "\<forall>p\<in>set (children w). proc_pid p \<in> K \<longrightarrow> ended_by_signal (proc_fate p)"
    and "\<forall>n args. execvp_result e n args \<noteq> Inr Runs_forever"
    and "\<forall>j<length (chain c). last_pid w + Suc j \<in> K \<longrightarrow>
           ended_by_signal (fate_of e (last_pid w + Suc j) (argv (chain c ! j)))"
  shows "(\<forall>p\<in>set (children w'). terminated p) \<and>
         (\<forall>p\<in>set (children w'). proc_pid p \<in> K \<longrightarrow> ended_by_signal (proc_fate p)) \<and>
         (r = None \<longrightarrow>
            set (children w) \<subseteq> set (children w') \<and>
            (\<forall>j<length (chain c). last_pid w + Suc j \<in> proc_pid ` set (children w')))"
  using assms
proof (induction e c ifd ofd pp cp w arbitrary: r w' rule: stage_loop_317.induct)
  case (1 e ifd ofd pp cp w)
  then show ?case by simp
next
  case (2 e cmd ifd ofd pp cp w)
  note t = "2.prems"(2) and k = "2.prems"(3) and h3 = "2.prems"(4) and h4 = "2.prems"(5)
  obtain rc i1 o1 cp1 w1 where S: "setup_io e cmd ifd ofd cp w = (rc, i1, o1, cp1, w1)"
    by (metis prod_cases5)
  from setup_io_frame [OF S] have c1: "children w1 = children w"
    by simp
  note l1 = setup_io_last_pid [OF S]
  obtain pid w2 where F: "sys_fork e (execute_child_process e cmd i1 o1 cp1) w1 = (pid, w2)"
    by fastforce
  obtain i2 pp2 w3 where H: "handle_parent_process cmd i1 pp cp1 w2 = (i2, pp2, w3)"
    by (metis prod_cases3)
  from handle_parent_process_frame [OF H] have c3: "children w3 = children w2"
    by simp
  note l3 = handle_parent_process_last_pid [OF H]
  show ?case
  proof (cases "rc \<noteq> - 1 \<and> 0 < pid")
    case False
    with "2.prems"(1) S F have r: "r = Some (- 1)"
      and w': "w' = w1 \<or> w' = perror ''fork failed'' w2"
      by (auto split: if_splits)
    from False sys_fork_child [OF F] have "rc = - 1 \<or> children w2 = children w1"
      by auto
    with "2.prems"(1) S F w' c1 have "children w' = children w"
      by (auto split: if_splits)
    with t k r show ?thesis
      by simp
  next
    case True
    then have rc: "rc \<noteq> - 1" and pid: "0 < pid"
      by simp_all
    with "2.prems"(1) S F H
    have rec: "stage_loop_317 e (pipe_to cmd) i2 o1 pp2 cp1 w3 = (r, w')"
      by simp
    from sys_fork_child [OF F] pid obtain p
      where lp2: "last_pid w2 = Suc (last_pid w1)" and pp: "proc_pid p = Suc (last_pid w1)"
        and c2: "children w2 = children w1 @ [execute_child_process e cmd i1 o1 cp1 p]"
      by auto
    let ?q = "execute_child_process e cmd i1 o1 cp1 p"
    have qpid: "proc_pid ?q = Suc (last_pid w)"
      using pp l1 by simp
    have qfate: "proc_fate ?q = fate_of e (Suc (last_pid w)) (argv cmd)"
      using pp l1 by (simp add: execute_child_process_fate)
    from h4 [rule_format, of 0]
    have q4: "Suc (last_pid w) \<in> K \<longrightarrow> ended_by_signal (fate_of e (Suc (last_pid w)) (argv cmd))"
      by simp
    from new_child_good [OF t k h3 qpid qfate q4] c1 c2 c3
    have t3: "\<forall>p\<in>set (children w3). terminated p"
      and k3: "\<forall>p\<in>set (children w3). proc_pid p \<in> K \<longrightarrow> ended_by_signal (proc_fate p)"
      by simp_all
    have l3': "last_pid w3 = Suc (last_pid w)"
      using l3 lp2 l1 by simp
    have h4': "\<forall>j<length (chain (pipe_to cmd)). last_pid w3 + Suc j \<in> K \<longrightarrow>
           ended_by_signal (fate_of e (last_pid w3 + Suc j) (argv (chain (pipe_to cmd) ! j)))"
    proof (intro allI impI)
      fix j
      assume j: "j < length (chain (pipe_to cmd))" and "last_pid w3 + Suc j \<in> K"
      with h4 [rule_format, of "Suc j"] l3'
      show "ended_by_signal (fate_of e (last_pid w3 + Suc j) (argv (chain (pipe_to cmd) ! j)))"
        by simp
    qed
    from "2.IH" [OF S [symmetric] refl refl refl rc F [symmetric] pid H [symmetric] refl
                    rec t3 k3 h3 h4']
    have a: "\<forall>p\<in>set (children w'). terminated p"
      and b: "\<forall>p\<in>set (children w'). proc_pid p \<in> K \<longrightarrow> ended_by_signal (proc_fate p)"
      and c: "r = None \<longrightarrow>
            set (children w3) \<subseteq> set (children w') \<and>
            (\<forall>j<length (chain (pipe_to cmd)).
               last_pid w3 + Suc j \<in> proc_pid ` set (children w'))"
      by simp_all
    have "r = None \<longrightarrow>
            set (children w) \<subseteq> set (children w') \<and>
            (\<forall>j<length (chain (Some cmd)). last_pid w + Suc j \<in> proc_pid ` set (children w'))"
    proof
      assume "r = None"
      with c have s3: "set (children w3) \<subseteq> set (children w')"
        and rest: "\<forall>j<length (chain (pipe_to cmd)).
               last_pid w3 + Suc j \<in> proc_pid ` set (children w')"
        by simp_all
      have "set (children w) \<subseteq> set (children w')"
        using s3 c1 c2 c3 by auto
      moreover have "\<forall>j<length (chain (Some cmd)).
          last_pid w + Suc j \<in> proc_pid ` set (children w')"
      proof (intro allI impI)
        fix j
        assume j: "j < length (chain (Some cmd))"
        show "last_pid w + Suc j \<in> proc_pid ` set (children w')"
        proof (cases j)
          case 0
          have "?q \<in> set (children w')"
            using s3 c2 c3 by auto
          with qpid 0 show ?thesis
            by (metis Suc_eq_plus1_left add.commute add_0 image_eqI plus_1_eq_Suc)
        next
          case (Suc j')
          with j rest l3' show ?thesis
            by simp
        qed
      qed
      ultimately show "set (children w) \<subseteq> set (children w') \<and>
            (\<forall>j<length (chain (Some cmd)). last_pid w + Suc j \<in> proc_pid ` set (children w'))"
        by simp
    qed
    with a b show ?thesis
      by simp
  qed
qed


lemma stage_loop_32_children:
  assumes "stage_loop_32 e pipeline c ifd ofd pp cp w = (r, w')"
    and "\<forall>p\<in>set (children w). terminated p"
    and "\<forall>p\<in>set (children w). proc_pid p \<in> K \<longrightarrow> ended_by_signal (proc_fate p)"
    and "\<forall>n args. execvp_result e n args \<noteq> Inr Runs_forever"
    and "\<forall>j<length (chain c). last_pid w + Suc j \<in> K \<longrightarrow>
           ended_by_signal (fate_of e (last_pid w + Suc j) (argv (chain c ! j)))"
  shows "(\<forall>p\<in>set (children w'). terminated p) \<and>
         (\<forall>p\<in>set (children w'). proc_pid p \<in> K \<longrightarrow> ended_by_signal (proc_fate p)) \<and>
         (r = None \<or> r = Some (- 1)) \<and>
         (r = None \<longrightarrow>
            set (children w) \<subseteq> set (children w') \<and>
            (\<forall>j<length (chain c). last_pid w + Suc j \<in> proc_pid ` set (children w')))"
  using assms
proof (induction e pipeline c ifd ofd pp cp w arbitrary: r w' rule: stage_loop_32.induct)
  case (1 e pipeline ifd ofd pp cp w)
  then show ?case by simp
next
  case (2 e pipeline cmd ifd ofd pp cp w)
  note t = "2.prems"(2) and k = "2.prems"(3) and h3 = "2.prems"(4) and h4 = "2.prems"(5)
  obtain failed o1 cp1 w1 where
    S: "resolve_output_32 e pipeline cmd ofd cp w = (failed, o1, cp1, w1)"
    by (metis prod_cases4)
  from resolve_output_32_frame [OF S] have c1: "children w1 = children w"
    by simp
  note l1 = resolve_output_32_result [OF S]
  obtain pid w2 where F: "sys_fork e (child_branch_32 e cmd ifd o1 cp1) w1 = (pid, w2)"
    by fastforce
  obtain i2 pp2 w3 where H: "parent_branch_32 cmd pp cp1 w2 = (i2, pp2, w3)"
    by (metis prod_cases3)
  from parent_branch_32_frame [OF H] have c3: "children w3 = children w2"
    by simp
  note l3 = parent_branch_32_last_pid [OF H]
  show ?case
  proof (cases "\<not> failed \<and> 0 < pid")
    case False
    with "2.prems"(1) S F have r: "r = Some (- 1)"
      and w': "w' = w1 \<or> w' = perror ''fork failed'' w2"
      by (auto split: if_splits)
    from False sys_fork_child [OF F] have "failed \<or> children w2 = children w1"
      by auto
    with "2.prems"(1) S F w' c1 have "children w' = children w"
      by (auto split: if_splits)
    with t k r show ?thesis
      by simp
  next
    case True
    then have nf: "\<not> failed" and pid: "0 < pid"
      by simp_all
    with "2.prems"(1) S F H
    have rec: "stage_loop_32 e pipeline (pipe_to cmd) i2 o1 pp2 cp1 w3 = (r, w')"
      by simp
    from sys_fork_child [OF F] pid obtain p
      where lp2: "last_pid w2 = Suc (last_pid w1)" and pp: "proc_pid p = Suc (last_pid w1)"
        and c2: "children w2 = children w1 @ [child_branch_32 e cmd ifd o1 cp1 p]"
      by auto
    let ?q = "child_branch_32 e cmd ifd o1 cp1 p"
    have qpid: "proc_pid ?q = Suc (last_pid w)"
      using pp l1 by simp
    have qfate: "proc_fate ?q = fate_of e (Suc (last_pid w)) (argv cmd)"
      using pp l1 by (simp add: child_branch_32_fate)
    from h4 [rule_format, of 0]
    have q4: "Suc (last_pid w) \<in> K \<longrightarrow> ended_by_signal (fate_of e (Suc (last_pid w)) (argv cmd))"
      by simp
    from new_child_good [OF t k h3 qpid qfate q4] c1 c2 c3
    have t3: "\<forall>p\<in>set (children w3). terminated p"
      and k3: "\<forall>p\<in>set (children w3). proc_pid p \<in> K \<longrightarrow> ended_by_signal (proc_fate p)"
      by simp_all
    have l3': "last_pid w3 = Suc (last_pid w)"
      using l3 lp2 l1 by simp
    have h4': "\<forall>j<length (chain (pipe_to cmd)). last_pid w3 + Suc j \<in> K \<longrightarrow>
           ended_by_signal (fate_of e (last_pid w3 + Suc j) (argv (chain (pipe_to cmd) ! j)))"
    proof (intro allI impI)
      fix j
      assume j: "j < length (chain (pipe_to cmd))" and "last_pid w3 + Suc j \<in> K"
      with h4 [rule_format, of "Suc j"] l3'
      show "ended_by_signal (fate_of e (last_pid w3 + Suc j) (argv (chain (pipe_to cmd) ! j)))"
        by simp
    qed
    from "2.IH" [OF S [symmetric] refl refl nf F [symmetric] pid H [symmetric] refl
                    rec t3 k3 h3 h4']
    have a: "\<forall>p\<in>set (children w'). terminated p"
      and b: "\<forall>p\<in>set (children w'). proc_pid p \<in> K \<longrightarrow> ended_by_signal (proc_fate p)"
      and d: "r = None \<or> r = Some (- 1)"
      and c: "r = None \<longrightarrow>
            set (children w3) \<subseteq> set (children w') \<and>
            (\<forall>j<length (chain (pipe_to cmd)).
               last_pid w3 + Suc j \<in> proc_pid ` set (children w'))"
      by simp_all
    have "r = None \<longrightarrow>
            set (children w) \<subseteq> set (children w') \<and>
            (\<forall>j<length (chain (Some cmd)). last_pid w + Suc j \<in> proc_pid ` set (children w'))"
    proof
      assume "r = None"
      with c have s3: "set (children w3) \<subseteq> set (children w')"
        and rest: "\<forall>j<length (chain (pipe_to cmd)).
               last_pid w3 + Suc j \<in> proc_pid ` set (children w')"
        by simp_all
      have "set (children w) \<subseteq> set (children w')"
        using s3 c1 c2 c3 by auto
      moreover have "\<forall>j<length (chain (Some cmd)).
          last_pid w + Suc j \<in> proc_pid ` set (children w')"
      proof (intro allI impI)
        fix j
        assume j: "j < length (chain (Some cmd))"
        show "last_pid w + Suc j \<in> proc_pid ` set (children w')"
        proof (cases j)
          case 0
          have "?q \<in> set (children w')"
            using s3 c2 c3 by auto
          with qpid 0 show ?thesis
            by (metis Suc_eq_plus1_left add.commute add_0 image_eqI plus_1_eq_Suc)
        next
          case (Suc j')
          with j rest l3' show ?thesis
            by simp
        qed
      qed
      ultimately show "set (children w) \<subseteq> set (children w') \<and>
            (\<forall>j<length (chain (Some cmd)). last_pid w + Suc j \<in> proc_pid ` set (children w'))"
        by simp
    qed
    with a b d show ?thesis
      by simp
  qed
qed

text \<open>
  The single-command revision: every path that does not reach \<^verbatim>\<open>waitpid\<close> returns \<open>-1\<close>,
  and \<^verbatim>\<open>waitpid\<close> reports a child with the process id \<^verbatim>\<open>fork\<close> returned.
\<close>

lemma dispatch_external_command_463_signal:
  assumes t: "\<forall>p\<in>set (children w). terminated p"
    and k: "\<forall>p\<in>set (children w). proc_pid p \<in> K \<longrightarrow> ended_by_signal (proc_fate p)"
    and h3: "\<forall>n args. execvp_result e n args \<noteq> Inr Runs_forever"
    and h4: "ended_by_signal (fate_of e (Suc (last_pid w)) (argv pipeline))"
    and inK: "Suc (last_pid w) \<in> K"
  shows "fst (dispatch_external_command_463 e pipeline w) = Ret (- 1)"
proof -
  obtain ifd w1 where I: "(case input_filename pipeline of None \<Rightarrow> (STDIN_FILENO, w)
      | Some f \<Rightarrow> sys_open e (Some f) [O_RDONLY] w) = (ifd, w1)"
    by fastforce
  have c1: "children w1 = children w" and l1: "last_pid w1 = last_pid w"
    using I by (auto split: option.splits dest: sys_open_frame sys_open_last_pid)
  obtain ofd w2 where O: "(if output_type pipeline = COMMAND_OUTPUT_FILE_TRUNCATE then
        sys_open e (output_filename pipeline) [O_WRONLY, O_CREAT, O_TRUNC] w1
      else if output_type pipeline = COMMAND_OUTPUT_FILE_APPEND then
        sys_open e (output_filename pipeline) [O_WRONLY, O_CREAT, O_APPEND] w1
      else (STDOUT_FILENO, w1)) = (ofd, w2)"
    by fastforce
  have c2: "children w2 = children w1" and l2: "last_pid w2 = last_pid w1"
    using O by (auto split: if_splits dest: sys_open_frame sys_open_last_pid)
  obtain pid w3 where F: "sys_fork e (child_branch_463 e pipeline) w2 = (pid, w3)"
    by fastforce
  obtain y w4 where W: "sys_waitpid pid w3 = (y, w4)"
    by fastforce
  show ?thesis
  proof (cases "pid = - 1")
    case True
    with I O F show ?thesis
      by (simp add: dispatch_external_command_463_def split: if_splits)
  next
    case False
    with sys_fork_child [OF F] obtain p
      where pid: "pid = int (Suc (last_pid w))" and pp: "proc_pid p = Suc (last_pid w)"
        and c3: "children w3 = children w @ [child_branch_463 e pipeline p]"
      using c1 c2 l1 l2 by auto
    let ?q = "child_branch_463 e pipeline p"
    have qpid: "proc_pid ?q = Suc (last_pid w)"
      using pp by simp
    have qfate: "proc_fate ?q = fate_of e (Suc (last_pid w)) (argv pipeline)"
      using pp by (simp add: child_branch_463_fate)
    from new_child_good [OF t k h3 qpid qfate] h4 c3
    have t3: "\<forall>p\<in>set (children w3). terminated p"
      and k3: "\<forall>p\<in>set (children w3). proc_pid p \<in> K \<longrightarrow> ended_by_signal (proc_fate p)"
      by simp_all
    define ms where "ms = filter (\<lambda>q. int (proc_pid q) = pid) (children w3)"
    have "?q \<in> set ms"
      using qpid pid c3 by (simp add: ms_def)
    then obtain m ms' where ms: "ms = m # ms'"
      by (cases ms) auto
    then have "m \<in> set ms"
      by simp
    then have m3: "m \<in> set (children w3)" and mp: "proc_pid m = Suc (last_pid w)"
      using pid by (auto simp: ms_def)
    from t3 m3 have mt: "terminated m"
      by blast
    from k3 m3 mp inK have "ended_by_signal (proc_fate m)"
      by simp
    then have ms': "\<not> WIFEXITED (exit_report m)"
      by (rule ended_by_signal_report)
    from ms mt W have y: "y = Reaped (proc_pid m) (exit_report m)"
      by (simp add: sys_waitpid_def ms_def [symmetric])
    from I O F W False y ms' show ?thesis
      by (simp add: dispatch_external_command_463_def split: if_splits)
  qed
qed


lemma ended_by_signal_iff: "ended_by_signal f = (\<exists>s. f = Terminates (W_SIGNALED s))"
proof (cases f)
  case (Terminates st)
  then show ?thesis
    by (cases st) simp_all
next
  case Runs_forever
  then show ?thesis
    by simp
qed

text \<open>
  C7: let \<open>K\<close> be a set of process ids that the system reports last: \<^verbatim>\<open>wait\<close> never
  reports a process of \<open>K\<close> while a process outside \<open>K\<close> has terminated. Suppose every
  child of the shell and every program terminates, the children the shell already has
  with an id in \<open>K\<close> were ended by a signal, the program of every stage whose process id
  (\<open>last_pid w + 1\<close> for the first stage, and so on) is in \<open>K\<close> is ended by a signal, and
  some child or stage has its id in \<open>K\<close>. Then both pipeline revisions of
  \<^verbatim>\<open>dispatch_external_command\<close> return \<open>-1\<close>; so does the single-command revision when
  the id of the process it spawns is in \<open>K\<close>.
\<close>

theorem last_report_by_signal_returns_failure:
  assumes "\<forall>p\<in>set (children w). proc_fate p \<noteq> Runs_forever"
    and "\<forall>p\<in>set (children w). proc_pid p \<in> K \<longrightarrow> (\<exists>s. proc_fate p = Terminates (W_SIGNALED s))"
    and "\<forall>n args. execvp_result e n args \<noteq> Inr Runs_forever"
    and "\<forall>j<length (chain (Some pipeline)). last_pid w + Suc j \<in> K \<longrightarrow>
           (\<exists>s. execvp_result e (last_pid w + Suc j) (argv (chain (Some pipeline) ! j))
                  = Inr (Terminates (W_SIGNALED s)))"
    and "\<forall>n pids. (\<exists>x\<in>set pids. x \<notin> K) \<longrightarrow> pids ! (wait_choice e n pids mod length pids) \<notin> K"
    and "(\<exists>p\<in>set (children w). proc_pid p \<in> K) \<or>
         (\<exists>j<length (chain (Some pipeline)). last_pid w + Suc j \<in> K)"
  shows "fst (dispatch_external_command_32 e pipeline w) = Ret (- 1) \<and>
         fst (dispatch_external_command_317 e pipeline w) = Ret (- 1) \<and>
         (Suc (last_pid w) \<in> K \<longrightarrow>
            fst (dispatch_external_command_463 e pipeline w) = Ret (- 1))"
proof -
  from assms(1) have t: "\<forall>p\<in>set (children w). terminated p"
    by (simp add: terminated_iff)
  from assms(2) have k: "\<forall>p\<in>set (children w). proc_pid p \<in> K \<longrightarrow> ended_by_signal (proc_fate p)"
    by (simp add: ended_by_signal_iff)
  note h3 = assms(3) and o = assms(5)
  have h4: "\<forall>j<length (chain (Some pipeline)). last_pid w + Suc j \<in> K \<longrightarrow>
      ended_by_signal (fate_of e (last_pid w + Suc j) (argv (chain (Some pipeline) ! j)))"
    using assms(4) by (auto intro: fate_of_signal)
  have some: "\<exists>p\<in>set cs. proc_pid p \<in> K"
    if "set (children w) \<subseteq> set cs"
      and "\<forall>j<length (chain (Some pipeline)). last_pid w + Suc j \<in> proc_pid ` set cs"
    for cs :: "proc list"
    using assms(6)
  proof
    assume "\<exists>p\<in>set (children w). proc_pid p \<in> K"
    with that(1) show ?thesis
      by blast
  next
    assume "\<exists>j<length (chain (Some pipeline)). last_pid w + Suc j \<in> K"
    then obtain j where "j < length (chain (Some pipeline))" and jk: "last_pid w + Suc j \<in> K"
      by blast
    with that(2) have "last_pid w + Suc j \<in> proc_pid ` set cs"
      by blast
    then obtain p where p: "p \<in> set cs" and pj: "proc_pid p = last_pid w + Suc j"
      by auto
    from jk pj have "proc_pid p \<in> K"
      by simp
    with p show ?thesis
      by (rule bexI [rotated])
  qed
  have a: "fst (dispatch_external_command_32 e pipeline w) = Ret (- 1)"
  proof -
    obtain r w1 where L: "stage_loop_32 e pipeline (Some pipeline) STDIN_FILENO STDOUT_FILENO
        (- 1, - 1) (uninit_curr_pipe e) w = (r, w1)"
      by fastforce
    from stage_loop_32_children [OF L t k h3 h4]
    have t1: "\<forall>p\<in>set (children w1). terminated p"
      and k1: "\<forall>p\<in>set (children w1). proc_pid p \<in> K \<longrightarrow> ended_by_signal (proc_fate p)"
      and r: "r = None \<or> r = Some (- 1)"
      and n: "r = None \<longrightarrow> set (children w) \<subseteq> set (children w1) \<and>
            (\<forall>j<length (chain (Some pipeline)).
               last_pid w + Suc j \<in> proc_pid ` set (children w1))"
      by simp_all
    show ?thesis
    proof (cases r)
      case (Some rv)
      with r L show ?thesis
        by (simp add: dispatch_external_command_32_def)
    next
      case None
      with n some have "\<exists>p\<in>set (children w1). proc_pid p \<in> K"
        by simp
      from wait_loop_kept_for_last [OF t1 k1 o this, of "uninit_status e"]
      obtain st w' where "wait_loop e (uninit_status e) w1 = (Some st, w')"
        and "\<not> WIFEXITED st"
        by blast
      with None L show ?thesis
        by (simp add: dispatch_external_command_32_def)
    qed
  qed
  have b: "fst (dispatch_external_command_317 e pipeline w) = Ret (- 1)"
  proof -
    obtain r w1 where L: "stage_loop_317 e (Some pipeline) STDIN_FILENO STDOUT_FILENO
        (- 1, - 1) (uninit_curr_pipe e) w = (r, w1)"
      by fastforce
    from stage_loop_317_children [OF L t k h3 h4]
    have t1: "\<forall>p\<in>set (children w1). terminated p"
      and k1: "\<forall>p\<in>set (children w1). proc_pid p \<in> K \<longrightarrow> ended_by_signal (proc_fate p)"
      and n: "r = None \<longrightarrow> set (children w) \<subseteq> set (children w1) \<and>
            (\<forall>j<length (chain (Some pipeline)).
               last_pid w + Suc j \<in> proc_pid ` set (children w1))"
      by simp_all
    from stage_loop_317_outcome [OF L] have r: "r = None \<or> r = Some (- 1)"
      by auto
    show ?thesis
    proof (cases r)
      case (Some rv)
      with r L show ?thesis
        by (simp add: dispatch_external_command_317_def)
    next
      case None
      with n some have "\<exists>p\<in>set (children w1). proc_pid p \<in> K"
        by simp
      from wait_loop_kept_for_last [OF t1 k1 o this, of "uninit_status e"]
      obtain st w' where "wait_loop e (uninit_status e) w1 = (Some st, w')"
        and "\<not> WIFEXITED st"
        by blast
      with None L show ?thesis
        by (simp add: dispatch_external_command_317_def)
    qed
  qed
  have c: "fst (dispatch_external_command_463 e pipeline w) = Ret (- 1)"
    if inK: "Suc (last_pid w) \<in> K"
  proof -
    from h4 [rule_format, of 0] inK
    have "ended_by_signal (fate_of e (Suc (last_pid w)) (argv pipeline))"
      by simp
    from dispatch_external_command_463_signal [OF t k h3 this inK] show ?thesis .
  qed
  from a b c show ?thesis
    by simp
qed

lemma victim_last_oracle:
  "\<forall>n pids. (\<exists>x\<in>set pids. x \<notin> {102}) \<longrightarrow>
     pids ! (wait_choice env_victim_last n pids mod length pids) \<notin> {102::nat}"
proof (intro allI impI)
  fix n :: nat and pids :: "nat list"
  assume "\<exists>x\<in>set pids. x \<notin> {102}"
  then have "takeWhile (\<lambda>x. x = 102) pids \<noteq> pids"
    by (auto simp: takeWhile_eq_all_conv)
  with length_takeWhile_le [of "\<lambda>x. x = 102" pids]
  have l: "length (takeWhile (\<lambda>x. x = 102) pids) < length pids"
    by (metis le_neq_implies_less length_takeWhile_le takeWhile_eq_take take_all_iff
          order_refl)
  from nth_length_takeWhile [OF l] l
  show "pids ! (wait_choice env_victim_last n pids mod length pids) \<notin> {102}"
    by (simp add: env_victim_last_def)
qed

theorem last_report_by_signal_returns_failure_witness:
  "children shell_world = [] \<and>
   execvp_result env_victim_last 101 [''true''] = Inr (Terminates (W_EXITED 0)) \<and>
   execvp_result env_victim_last 102 [''victim''] = Inr (Terminates (W_SIGNALED 9)) \<and>
   fst (dispatch_external_command_32 env_victim_last true_then_victim shell_world)
     = Ret (- 1) \<and>
   fst (dispatch_external_command_317 env_victim_last true_then_victim shell_world)
     = Ret (- 1) \<and>
   execvp_result env_youngest_first 101 [''victim''] = Inr (Terminates (W_SIGNALED 9)) \<and>
   fst (dispatch_external_command_32 env_youngest_first (simple_command [''victim''])
     shell_world) = Ret (- 1) \<and>
   fst (dispatch_external_command_317 env_youngest_first (simple_command [''victim''])
     shell_world) = Ret (- 1) \<and>
   fst (dispatch_external_command_463 env_youngest_first (simple_command [''victim''])
     shell_world) = Ret (- 1)"
proof -
  have nc: "children shell_world = []" and lp: "last_pid shell_world = 100"
    by (simp_all add: shell_world_def)
  have p1: "execvp_result env_victim_last 101 [''true''] = Inr (Terminates (W_EXITED 0))"
    and p2: "execvp_result env_victim_last 102 [''victim''] = Inr (Terminates (W_SIGNALED 9))"
    and p3: "execvp_result env_youngest_first 101 [''victim''] = Inr (Terminates (W_SIGNALED 9))"
    by (simp_all add: env_victim_last_def env_youngest_first_def programs_def)
  have t1: "\<forall>n args. execvp_result env_victim_last n args \<noteq> Inr Runs_forever"
    and t2: "\<forall>n args. execvp_result env_youngest_first n args \<noteq> Inr Runs_forever"
    by (simp_all add: env_victim_last_def env_youngest_first_def programs_def)
  have ch: "chain (Some true_then_victim)
      = [true_then_victim, simple_command [''victim'']]"
    "chain (Some (simple_command [''victim''])) = [simple_command [''victim'']]"
    by (simp_all add: true_then_victim_def piped_into_def simple_command_def)
  have av: "argv (simple_command [''victim'']) = [''victim'']"
    by (simp add: simple_command_def)
  have first:
    "fst (dispatch_external_command_32 env_victim_last true_then_victim shell_world)
       = Ret (- 1) \<and>
     fst (dispatch_external_command_317 env_victim_last true_then_victim shell_world)
       = Ret (- 1) \<and>
     (Suc (last_pid shell_world) \<in> {102} \<longrightarrow>
        fst (dispatch_external_command_463 env_victim_last true_then_victim shell_world)
          = Ret (- 1))"
  proof (rule last_report_by_signal_returns_failure)
    show "\<forall>p\<in>set (children shell_world). proc_fate p \<noteq> Runs_forever"
      by (simp add: nc)
    show "\<forall>p\<in>set (children shell_world). proc_pid p \<in> {102} \<longrightarrow>
        (\<exists>s. proc_fate p = Terminates (W_SIGNALED s))"
      by (simp add: nc)
    show "\<forall>n args. execvp_result env_victim_last n args \<noteq> Inr Runs_forever"
      by (rule t1)
    show "\<forall>j<length (chain (Some true_then_victim)). last_pid shell_world + Suc j \<in> {102} \<longrightarrow>
        (\<exists>s. execvp_result env_victim_last (last_pid shell_world + Suc j)
               (argv (chain (Some true_then_victim) ! j)) = Inr (Terminates (W_SIGNALED s)))"
      unfolding ch lp using p2 by (auto simp: av less_Suc_eq)
    show "\<forall>n pids. (\<exists>x\<in>set pids. x \<notin> {102}) \<longrightarrow>
        pids ! (wait_choice env_victim_last n pids mod length pids) \<notin> {102}"
      by (rule victim_last_oracle)
    show "(\<exists>p\<in>set (children shell_world). proc_pid p \<in> {102}) \<or>
        (\<exists>j<length (chain (Some true_then_victim)). last_pid shell_world + Suc j \<in> {102})"
      unfolding ch lp by (intro disjI2 exI [of _ "1::nat"]) simp
  qed
  have second:
    "fst (dispatch_external_command_32 env_youngest_first (simple_command [''victim''])
       shell_world) = Ret (- 1) \<and>
     fst (dispatch_external_command_317 env_youngest_first (simple_command [''victim''])
       shell_world) = Ret (- 1) \<and>
     (Suc (last_pid shell_world) \<in> UNIV \<longrightarrow>
        fst (dispatch_external_command_463 env_youngest_first (simple_command [''victim''])
          shell_world) = Ret (- 1))"
  proof (rule last_report_by_signal_returns_failure)
    show "\<forall>p\<in>set (children shell_world). proc_fate p \<noteq> Runs_forever"
      by (simp add: nc)
    show "\<forall>p\<in>set (children shell_world). proc_pid p \<in> UNIV \<longrightarrow>
        (\<exists>s. proc_fate p = Terminates (W_SIGNALED s))"
      by (simp add: nc)
    show "\<forall>n args. execvp_result env_youngest_first n args \<noteq> Inr Runs_forever"
      by (rule t2)
    show "\<forall>j<length (chain (Some (simple_command [''victim'']))).
        last_pid shell_world + Suc j \<in> UNIV \<longrightarrow>
        (\<exists>s. execvp_result env_youngest_first (last_pid shell_world + Suc j)
               (argv (chain (Some (simple_command [''victim''])) ! j))
             = Inr (Terminates (W_SIGNALED s)))"
      unfolding ch lp using p3 by (simp add: av)
    show "\<forall>n pids. (\<exists>x\<in>set pids. x \<notin> UNIV) \<longrightarrow>
        pids ! (wait_choice env_youngest_first n pids mod length pids) \<notin> UNIV"
      by simp
    show "(\<exists>p\<in>set (children shell_world). proc_pid p \<in> UNIV) \<or>
        (\<exists>j<length (chain (Some (simple_command [''victim'']))).
           last_pid shell_world + Suc j \<in> UNIV)"
      unfolding ch by simp
  qed
  from first second nc p1 p2 p3 show ?thesis
    by simp
qed

section \<open>Where the code departs from the specification\<close>

text \<open>
  C1: in \<^verbatim>\<open>sh -c 'sleep 1; exit 3' | true\<close> the last stage is process 102 and exits
  with 0, the first stage is process 101 and exits with 3. When \<^verbatim>\<open>wait\<close> reports
  the last stage first, both pipeline revisions return 3, the status of the first stage:
  the value returned is the status of the process reported last, not of the last stage.
\<close>

theorem status_of_last_reported_not_last_stage:
  "map (\<lambda>p. (proc_pid p, proc_argv p, proc_fate p))
     (children (snd (stage_loop_317 env_youngest_first (Some slow_then_true)
        STDIN_FILENO STDOUT_FILENO (- 1, - 1) (uninit_curr_pipe env_youngest_first)
        shell_world)))
   = [(101, [''sh'', ''-c'', ''sleep 1; exit 3''], Terminates (W_EXITED 3)),
      (102, [''true''], Terminates (W_EXITED 0))] \<and>
   reaped (snd (dispatch_external_command_317 env_youngest_first slow_then_true shell_world))
   = [(102, W_EXITED 0), (101, W_EXITED 3)] \<and>
   fst (dispatch_external_command_317 env_youngest_first slow_then_true shell_world) = Ret 3 \<and>
   fst (dispatch_external_command_32 env_youngest_first slow_then_true shell_world) = Ret 3"
  by code_simp

text \<open>
  C2: in the helper-function revision the child that writes into a pipe still holds the
  read end of that pipe (descriptor 3) when it calls \<^verbatim>\<open>execvp\<close>; and when the pipeline
  is aborted after its first stage (\<^verbatim>\<open>fork\<close> fails, or the input file of the second
  stage cannot be opened) the read end stays open in the shell after
  \<^verbatim>\<open>dispatch_external_command\<close> has returned.
\<close>

theorem pipe_read_end_left_open:
  "map proc_fds
     (children (snd (stage_loop_317 env_youngest_first (Some slow_then_true)
        STDIN_FILENO STDOUT_FILENO (- 1, - 1) (uninit_curr_pipe env_youngest_first)
        shell_world)))
   = [[Some Inherited, Some (Pipe_write 0), Some Inherited, Some (Pipe_read 0), None],
      [Some (Pipe_read 0), Some Inherited, Some Inherited, None, None]] \<and>
   fst (dispatch_external_command_317 env_fork_fails slow_then_true shell_world)
   = Ret (- 1) \<and>
   fds (snd (dispatch_external_command_317 env_fork_fails slow_then_true shell_world))
   = [Some Inherited, Some Inherited, Some Inherited, Some (Pipe_read 0), None] \<and>
   fst (dispatch_external_command_317 env_youngest_first slow_then_missing_input shell_world)
   = Ret (- 1) \<and>
   fds (snd (dispatch_external_command_317 env_youngest_first slow_then_missing_input
     shell_world))
   = [Some Inherited, Some Inherited, Some Inherited, Some (Pipe_read 0), None]"
  by code_simp

text \<open>
  C3: when \<^verbatim>\<open>fork\<close> fails for the second stage of \<^verbatim>\<open>sh -c 'sleep 1; exit 3' | true\<close>,
  both pipeline revisions print \<^verbatim>\<open>fork failed\<close> and return \<open>-1\<close> at once: nothing has been
  reaped, and process 101, spawned for the first stage, is still a child of the shell.
\<close>

theorem fork_failure_reaps_nothing:
  "fst (dispatch_external_command_317 env_fork_fails slow_then_true shell_world) = Ret (- 1) \<and>
   stderr (snd (dispatch_external_command_317 env_fork_fails slow_then_true shell_world))
   = [Perror ''fork failed'' EAGAIN] \<and>
   reaped (snd (dispatch_external_command_317 env_fork_fails slow_then_true shell_world)) = [] \<and>
   map proc_pid (children (snd (dispatch_external_command_317 env_fork_fails slow_then_true
     shell_world))) = [101] \<and>
   fst (dispatch_external_command_32 env_fork_fails slow_then_true shell_world) = Ret (- 1) \<and>
   reaped (snd (dispatch_external_command_32 env_fork_fails slow_then_true shell_world)) = [] \<and>
   map proc_pid (children (snd (dispatch_external_command_32 env_fork_fails slow_then_true
     shell_world))) = [101]"
  by code_simp

text \<open>
  C5: for \<^verbatim>\<open>ls | sort >> out\<close> the first pipeline revision opens the output file name of
  the head of the pipeline, which is \<^verbatim>\<open>NULL\<close>, instead of \<^verbatim>\<open>out\<close>: the call fails with
  \<^verbatim>\<open>EFAULT\<close> and the pipeline is aborted, although \<^verbatim>\<open>out\<close> can be opened. The
  helper-function revision opens \<^verbatim>\<open>out\<close> for appending.
\<close>

theorem append_opens_file_of_first_stage:
  "open_result env_youngest_first 2 ''out'' [O_WRONLY, O_CREAT, O_APPEND] = None \<and>
   fst (dispatch_external_command_32 env_youngest_first ls_sort_append shell_world)
   = Ret (- 1) \<and>
   stderr (snd (dispatch_external_command_32 env_youngest_first ls_sort_append shell_world))
   = [Perror ''Failed to open output file'' EFAULT] \<and>
   fds (snd (dispatch_external_command_32 env_youngest_first ls_sort_append shell_world))
   = [Some Inherited, Some Inherited, Some Inherited, Some (Pipe_read 0), None] \<and>
   fst (dispatch_external_command_317 env_youngest_first ls_sort_append shell_world) = Ret 0 \<and>
   fds (snd (dispatch_external_command_317 env_youngest_first ls_sort_append shell_world))
   = [Some Inherited, Some Inherited, Some Inherited, None,
      Some (File ''out'' [O_WRONLY, O_CREAT, O_APPEND])]"
  by code_simp

text \<open>
  C6: after \<^verbatim>\<open>sh -c 'sleep 1; exit 3' | cat < nonexistent_file\<close> has been aborted with the
  first stage still running, the single command \<^verbatim>\<open>true\<close>, which exits with 0, makes the
  helper-function revision return 3: the \<^verbatim>\<open>wait\<close> loop also reaps the child left
  over and returns its status. The first pipeline revision does the same after
  \<^verbatim>\<open>sh -c 'sleep 1; exit 3' | cat > /nodir/out\<close>.
\<close>

theorem single_command_reports_leftover_child:
  "fst (dispatch_external_command_317 env_youngest_first slow_then_missing_input shell_world)
   = Ret (- 1) \<and>
   execvp_result env_youngest_first 102 [''true''] = Inr (Terminates (W_EXITED 0)) \<and>
   fst (dispatch_external_command_317 env_youngest_first (simple_command [''true''])
     (snd (dispatch_external_command_317 env_youngest_first slow_then_missing_input
        shell_world))) = Ret 3 \<and>
   reaped (snd (dispatch_external_command_317 env_youngest_first (simple_command [''true''])
     (snd (dispatch_external_command_317 env_youngest_first slow_then_missing_input
        shell_world)))) = [(102, W_EXITED 0), (101, W_EXITED 3)] \<and>
   fst (dispatch_external_command_32 env_youngest_first slow_then_bad_output shell_world)
   = Ret (- 1) \<and>
   fst (dispatch_external_command_32 env_youngest_first (simple_command [''true''])
     (snd (dispatch_external_command_32 env_youngest_first slow_then_bad_output
        shell_world))) = Ret 3"
  by code_simp

text \<open>
  C8: in the helper-function revision a child whose \<^verbatim>\<open>execvp\<close> fails prints
  \<^verbatim>\<open>perror("execvp failed")\<close> whatever the error: a program that does not exist
  (\<^verbatim>\<open>ENOENT\<close>) gets the same treatment as one that may not be executed (\<^verbatim>\<open>EACCES\<close>).
  The first pipeline revision prints \<^verbatim>\<open>error: cannot find command\<close> for \<^verbatim>\<open>ENOENT\<close>.
  In all cases the child exits with status 255.
\<close>

theorem execvp_failure_has_no_distinct_message:
  "map (\<lambda>p. (exec_failed p, proc_stderr p, proc_fate p))
     (children (snd (stage_loop_317 env_youngest_first (Some (simple_command [''nosuch'']))
        STDIN_FILENO STDOUT_FILENO (- 1, - 1) (uninit_curr_pipe env_youngest_first)
        shell_world)))
   = [(Some ENOENT, [Perror ''execvp failed'' ENOENT], Terminates (W_EXITED 255))] \<and>
   map (\<lambda>p. (exec_failed p, proc_stderr p, proc_fate p))
     (children (snd (stage_loop_317 env_youngest_first (Some (simple_command [''noperm'']))
        STDIN_FILENO STDOUT_FILENO (- 1, - 1) (uninit_curr_pipe env_youngest_first)
        shell_world)))
   = [(Some EACCES, [Perror ''execvp failed'' EACCES], Terminates (W_EXITED 255))] \<and>
   map (\<lambda>p. (exec_failed p, proc_stderr p, proc_fate p))
     (children (snd (stage_loop_32 env_youngest_first (simple_command [''nosuch''])
        (Some (simple_command [''nosuch'']))
        STDIN_FILENO STDOUT_FILENO (- 1, - 1) (uninit_curr_pipe env_youngest_first)
        shell_world)))
   = [(Some ENOENT, [Fprintf (''error: cannot find command'' @ [CHR 0x0A])],
       Terminates (W_EXITED 255))]"
  by code_simp

end
